theory Spec2Isabelle
  imports Main
begin

section \<open>JavaScript values the client tests for truthiness\<close>

text \<open>
  The registry documents are modelled as typed records: every field the client reads is
  either absent (\<open>None\<close>, JavaScript's \<open>undefined\<close>) or carries a value of the type the
  registry protocol gives it (a string, an integer byte count, an array, an object).
  The operators \<open>x || d\<close> and \<open>if (x)\<close> test truthiness: an absent field,
  the empty string and the number 0 are falsy; arrays and objects are always truthy.
\<close>

datatype jsval = Undefined | Bool bool

fun truthy :: "jsval \<Rightarrow> bool" where
  "truthy Undefined = False"
| "truthy (Bool b) = b"

definition truthy_str :: "string option \<Rightarrow> bool" where
  "truthy_str x = (case x of None \<Rightarrow> False | Some s \<Rightarrow> s \<noteq> [])"

definition truthy_num :: "int option \<Rightarrow> bool" where
  "truthy_num x = (case x of None \<Rightarrow> False | Some n \<Rightarrow> n \<noteq> 0)"

text \<open>\<open>a || b\<close> on optional strings, \<open>a || null\<close>, and \<open>n || 0\<close> on optional numbers.\<close>

definition or_str :: "string option \<Rightarrow> string option \<Rightarrow> string option" where
  "or_str a b = (if truthy_str a then a else b)"

definition or_null :: "string option \<Rightarrow> string option" where
  "or_null a = or_str a None"

definition or_zero :: "int option \<Rightarrow> int" where
  "or_zero x = (if truthy_num x then the x else 0)"

subsection \<open>Numbers\<close>

text \<open>
  A JavaScript number is an IEEE 754 double. A size is a byte count, an integer; a double
  holds every integer up to \<open>2^53\<close> in magnitude exactly, and beyond that only the
  integers with a 53-bit significand. \<open>round_double n\<close> is the double nearest to the
  integer \<open>n\<close> (ties to the even significand), which is \<open>Infinity\<close> when the rounded
  magnitude reaches \<open>2^1024\<close>: what \<open>JSON.parse\<close> makes of the digits of \<open>n\<close>, and what
  an addition makes of an exact sum \<open>n\<close>. \<open>js_add\<close> is \<open>sum + x\<close> for a running sum and a
  number read from a document; \<open>num_or_zero\<close> is \<open>sum || 0\<close>.
\<close>

datatype jsnum = Num int | PosInfinity | NegInfinity | NaN

function bitlen :: "int \<Rightarrow> nat" where
  "bitlen n = (if n \<le> 0 then 0 else Suc (bitlen (n div 2)))"
  by pat_completeness auto
termination
  by (relation "measure nat") auto

declare bitlen.simps [simp del]

definition round_double :: "int \<Rightarrow> jsnum" where
  "round_double n =
     (let m = \<bar>n\<bar> in
      if m \<le> 2 ^ 53 then Num n
      else
        (let sh = bitlen m - 53;
             q = m div 2 ^ sh;
             r = m mod 2 ^ sh;
             q' = (if r > 2 ^ (sh - 1) \<or> (r = 2 ^ (sh - 1) \<and> odd q) then q + 1 else q);
             v = q' * 2 ^ sh
         in if v \<ge> 2 ^ 1024 then (if n > 0 then PosInfinity else NegInfinity)
            else Num (if n > 0 then v else - v)))"

fun js_add :: "jsnum \<Rightarrow> int \<Rightarrow> jsnum" where
  "js_add (Num a) x =
     (case round_double x of
        Num b \<Rightarrow> round_double (a + b)
      | other \<Rightarrow> other)"
| "js_add PosInfinity x = (case round_double x of NegInfinity \<Rightarrow> NaN | _ \<Rightarrow> PosInfinity)"
| "js_add NegInfinity x = (case round_double x of PosInfinity \<Rightarrow> NaN | _ \<Rightarrow> NegInfinity)"
| "js_add NaN x = NaN"

fun num_or_zero :: "jsnum \<Rightarrow> jsnum" where
  "num_or_zero NaN = Num 0"
| "num_or_zero n = n"

text \<open>A thrown \<open>new Error(message)\<close>.\<close>

datatype error = Error (message: string)

section \<open>Registry documents\<close>

record layer =
  l_digest :: "string option"
  l_size :: "int option"

record config_ref =
  c_digest :: "string option"
  c_size :: "int option"

record platform =
  p_os :: "string option"
  p_architecture :: "string option"
  p_variant :: "string option"
  p_os_version :: "string option"

record entry =
  e_platform :: "platform option"
  e_digest :: "string option"
  e_size :: "int option"

record manifest =
  mediaType :: "string option"
  layers :: "layer list option"
  config :: "config_ref option"
  manifests :: "entry list option"

record image_config =
  cfg_created :: "string option"
  cfg_architecture :: "string option"
  cfg_os :: "string option"
  cfg_author :: "string option"
  cfg_docker_version :: "string option"
  cfg_variant :: "string option"
  cfg_os_version :: "string option"
  cfg_platform :: "platform option"

record catalog =
  repositories :: "string list option"

record tag_list =
  tags :: "string list option"

text \<open>The resolved result of \<open>getImageInfo\<close>. A platform descriptor of a single-platform
  image has no \<open>digest\<close> and no \<open>size\<close>; \<open>firstManifest\<close> is \<open>None\<close> both when the
  property is \<open>null\<close> and when the object has no such property.\<close>

record platform_descriptor =
  pd_os :: "string option"
  pd_architecture :: "string option"
  pd_variant :: "string option"
  pd_digest :: "string option"
  pd_size :: "int option"

record image_info =
  info_manifest :: manifest
  info_config :: "image_config option"
  totalSize :: jsnum
  platforms :: "platform_descriptor list"
  isMultiPlatform :: bool
  created :: "string option"
  architecture :: "string option"
  os :: "string option"
  author :: "string option"
  dockerVersion :: "string option"
  firstManifest :: "manifest option"

section \<open>Credentials and the registry behind the network\<close>

record credentials =
  registryUrl :: "string option"
  username :: "string option"
  password :: "string option"

text \<open>
  The requests the client passes to \<open>enqueueRequest\<close>, and the registry that answers them.
  A manifest, tag list or blob request is answered as a function of its endpoint; the
  catalog answers successive page requests with the successive elements of \<open>catalogPages\<close>
  (a mock catalog "returning pages"). \<open>calls\<close> records, oldest first, the requests that went
  through the throttler.
\<close>

datatype request =
  CatalogReq nat string
| TagsReq string
| ManifestReq string string
| PlatformManifestReq string string
| BlobReq string string

record network =
  pingOutcome :: "error + unit"
  catalogPages :: "(error + catalog) list"
  tagsOf :: "string \<Rightarrow> error + tag_list"
  manifestOf :: "string \<Rightarrow> string \<Rightarrow> error + manifest"
  platformManifestOf :: "string \<Rightarrow> string \<Rightarrow> error + manifest"
  blobOf :: "string \<Rightarrow> string \<Rightarrow> error + image_config"
  calls :: "request list"

section \<open>Registry client (registryApi.js)\<close>

definition configured :: "credentials option \<Rightarrow> bool" where
  "configured creds = (case creds of None \<Rightarrow> False | Some c \<Rightarrow> truthy_str (registryUrl c))"

text \<open>\<open>request\<close>: throws when no registry URL is configured, otherwise the outcome of the
  HTTP exchange (already mapped to an \<open>Error\<close> for a non-2xx status or a failed fetch).\<close>

definition request :: "credentials option \<Rightarrow> error + 'a \<Rightarrow> error + 'a" where
  "request creds outcome =
     (if \<not> configured creds then Inl (Error ''Registry URL not configured'') else outcome)"

text \<open>\<open>await this.enqueueRequest(requestFn)\<close> as seen by a caller that is alone on the
  throttler: the task runs at once and its outcome settles the caller's promise (the
  throttler itself, with its queue and its delay, is modelled in the next section).\<close>

definition enqueueRequest_await ::
  "request \<Rightarrow> error + 'a \<Rightarrow> network \<Rightarrow> (error + 'a) \<times> network" where
  "enqueueRequest_await r outcome net = (outcome, net\<lparr>calls := calls net @ [r]\<rparr>)"

definition getManifest ::
  "credentials option \<Rightarrow> string \<Rightarrow> string \<Rightarrow> network \<Rightarrow> (error + manifest) \<times> network" where
  "getManifest creds repository tag net =
     enqueueRequest_await (ManifestReq repository tag)
       (request creds (manifestOf net repository tag)) net"

definition getBlob ::
  "credentials option \<Rightarrow> string \<Rightarrow> string \<Rightarrow> network \<Rightarrow> (error + image_config) \<times> network" where
  "getBlob creds repository dgst net =
     enqueueRequest_await (BlobReq repository dgst) (request creds (blobOf net repository dgst)) net"

definition listMediaTypes :: "string list" where
  "listMediaTypes =
     [''application/vnd.docker.distribution.manifest.list.v2+json'',
      ''application/vnd.oci.image.index.v1+json'']"

text \<open>\<open>listMediaTypes.includes(manifest.mediaType) || (manifest.manifests && !manifest.layers)\<close>.
  The value returned is \<open>true\<close>, \<open>false\<close>, or \<open>undefined\<close> when there is no \<open>manifests\<close>
  field (the left operand of \<open>&&\<close>).\<close>

definition isManifestList :: "manifest \<Rightarrow> jsval" where
  "isManifestList m =
     (if (case mediaType m of None \<Rightarrow> False | Some t \<Rightarrow> t \<in> set listMediaTypes) then Bool True
      else (case manifests m of
              None \<Rightarrow> Undefined
            | Some ms \<Rightarrow> Bool (layers m = None)))"

text \<open>The descriptor built for a manifest-list entry; \<open>filter(m => m.platform).map(...)\<close>
  keeps the entries that carry a platform object.\<close>

definition platformDescriptor :: "entry \<Rightarrow> platform_descriptor option" where
  "platformDescriptor m =
     (case e_platform m of
        None \<Rightarrow> None
      | Some p \<Rightarrow> Some \<lparr>pd_os = p_os p, pd_architecture = p_architecture p,
                       pd_variant = or_null (p_variant p),
                       pd_digest = e_digest m, pd_size = e_size m\<rparr>)"

definition listPlatforms :: "manifest \<Rightarrow> platform_descriptor list" where
  "listPlatforms m =
     (case manifests m of None \<Rightarrow> [] | Some ms \<Rightarrow> List.map_filter platformDescriptor ms)"

definition listTotalSize :: "manifest \<Rightarrow> jsnum" where
  "listTotalSize m =
     (case manifests m of
        None \<Rightarrow> Num 0
      | Some ms \<Rightarrow> num_or_zero (fold (\<lambda>e sum. js_add sum (or_zero (e_size e))) ms (Num 0)))"

text \<open>The \<open>try\<close> block of the manifest-list branch: the first platform's manifest, then its
  config blob. It yields \<open>(config, firstManifestInfo)\<close>; any failure inside is caught and
  leaves both as they were (\<open>null\<close>). An absent digest is interpolated into the URL as the
  text \<open>undefined\<close>.\<close>

definition fetchFirstPlatform ::
  "credentials option \<Rightarrow> string \<Rightarrow> platform_descriptor list \<Rightarrow> network
     \<Rightarrow> (image_config option \<times> manifest option) \<times> network" where
  "fetchFirstPlatform creds repository ps net =
     (case ps of
        [] \<Rightarrow> ((None, None), net)
      | p # _ \<Rightarrow>
          (let firstDigest = (case pd_digest p of None \<Rightarrow> ''undefined'' | Some d \<Rightarrow> d) in
           case enqueueRequest_await (PlatformManifestReq repository firstDigest)
                  (request creds (platformManifestOf net repository firstDigest)) net of
             (Inl e, net1) \<Rightarrow> ((None, None), net1)
           | (Inr platformManifest, net1) \<Rightarrow>
               (case config platformManifest of
                  None \<Rightarrow> ((None, Some platformManifest), net1)
                | Some c \<Rightarrow>
                    if truthy_str (c_digest c) then
                      (case getBlob creds repository (the (c_digest c)) net1 of
                         (Inl e, net2) \<Rightarrow> ((None, None), net2)
                       | (Inr cfg, net2) \<Rightarrow> ((Some cfg, Some platformManifest), net2))
                    else ((None, Some platformManifest), net1))))"

text \<open>\<open>config?.field\<close> for a possibly-null config blob.\<close>

definition cfg_field :: "(image_config \<Rightarrow> string option) \<Rightarrow> image_config option \<Rightarrow> string option" where
  "cfg_field f cfg = (case cfg of None \<Rightarrow> None | Some c \<Rightarrow> f c)"

definition multiPlatformInfo ::
  "credentials option \<Rightarrow> string \<Rightarrow> manifest \<Rightarrow> network \<Rightarrow> image_info \<times> network" where
  "multiPlatformInfo creds repository m net =
     (let ps = listPlatforms m;
          total = listTotalSize m
      in case fetchFirstPlatform creds repository ps net of
           ((cfg, firstManifestInfo), net1) \<Rightarrow>
             (\<lparr>info_manifest = m, info_config = cfg, totalSize = total, platforms = ps,
               isMultiPlatform = True,
               created = or_null (cfg_field cfg_created cfg),
               architecture =
                 or_null (or_str (case ps of [] \<Rightarrow> None | p # _ \<Rightarrow> pd_architecture p)
                                 (cfg_field cfg_architecture cfg)),
               os = or_null (or_str (case ps of [] \<Rightarrow> None | p # _ \<Rightarrow> pd_os p)
                                    (cfg_field cfg_os cfg)),
               author = or_null (cfg_field cfg_author cfg),
               dockerVersion = or_null (cfg_field cfg_docker_version cfg),
               firstManifest = firstManifestInfo\<rparr>, net1))"

text \<open>The single-platform branch: layer sizes, the config object's declared size, the
  best-effort fetch of the config blob, and the one platform derived from it.\<close>

definition singleTotalSize :: "manifest \<Rightarrow> jsnum" where
  "singleTotalSize m =
     (let totalSize0 = (case layers m of
                          None \<Rightarrow> Num 0
                        | Some ls \<Rightarrow> fold (\<lambda>l sum. js_add sum (or_zero (l_size l))) ls (Num 0))
      in case config m of
           None \<Rightarrow> totalSize0
         | Some c \<Rightarrow>
             if truthy_num (c_size c) then js_add totalSize0 (the (c_size c)) else totalSize0)"

definition fetchConfig ::
  "credentials option \<Rightarrow> string \<Rightarrow> manifest \<Rightarrow> network \<Rightarrow> image_config option \<times> network" where
  "fetchConfig creds repository m net =
     (case config m of
        None \<Rightarrow> (None, net)
      | Some c \<Rightarrow>
          if truthy_str (c_digest c) then
            (case getBlob creds repository (the (c_digest c)) net of
               (Inl e, net1) \<Rightarrow> (None, net1)
             | (Inr cfg, net1) \<Rightarrow> (Some cfg, net1))
          else (None, net))"

definition configPlatforms :: "image_config option \<Rightarrow> platform_descriptor list" where
  "configPlatforms cfg =
     (case cfg of
        None \<Rightarrow> []
      | Some c \<Rightarrow>
          (let platformData =
                 (case cfg_platform c of
                    Some p \<Rightarrow> p
                  | None \<Rightarrow> \<lparr>p_os = cfg_os c, p_architecture = cfg_architecture c,
                              p_variant = cfg_variant c, p_os_version = cfg_os_version c\<rparr>)
           in [\<lparr>pd_os = or_str (p_os platformData) (cfg_os c),
                pd_architecture = or_str (p_architecture platformData) (cfg_architecture c),
                pd_variant =
                  or_null (or_str (or_str (p_variant platformData) (cfg_variant c))
                                  (p_os_version platformData)),
                pd_digest = None, pd_size = None\<rparr>]))"

definition singlePlatformInfo ::
  "credentials option \<Rightarrow> string \<Rightarrow> manifest \<Rightarrow> network \<Rightarrow> image_info \<times> network" where
  "singlePlatformInfo creds repository m net =
     (case fetchConfig creds repository m net of
        (cfg, net1) \<Rightarrow>
          (\<lparr>info_manifest = m, info_config = cfg, totalSize = singleTotalSize m,
            platforms = configPlatforms cfg,
            isMultiPlatform = False,
            created = or_null (cfg_field cfg_created cfg),
            architecture = or_null (cfg_field cfg_architecture cfg),
            os = or_null (cfg_field cfg_os cfg),
            author = or_null (cfg_field cfg_author cfg),
            dockerVersion = or_null (cfg_field cfg_docker_version cfg),
            firstManifest = None\<rparr>, net1))"

definition getImageInfo ::
  "credentials option \<Rightarrow> string \<Rightarrow> string \<Rightarrow> network \<Rightarrow> (error + image_info) \<times> network" where
  "getImageInfo creds repository tag net =
     (case getManifest creds repository tag net of
        (Inl e, net1) \<Rightarrow> (Inl e, net1)
      | (Inr m, net1) \<Rightarrow>
          if truthy (isManifestList m) then
            (case multiPlatformInfo creds repository m net1 of (info, net2) \<Rightarrow> (Inr info, net2))
          else
            (case singlePlatformInfo creds repository m net1 of (info, net2) \<Rightarrow> (Inr info, net2)))"

section \<open>Catalog pagination (getCatalog, getAllRepositories)\<close>

definition pageSize :: nat where
  "pageSize = 100"

text \<open>\<open>getCatalog(n, last)\<close>: the guard of \<open>request\<close>, then the next page the catalog
  serves. \<open>None\<close> means that the registry never answers (no further response is scripted),
  so the awaited promise never settles.\<close>

definition getCatalog ::
  "credentials option \<Rightarrow> nat \<Rightarrow> string \<Rightarrow> network \<Rightarrow> ((error + catalog) \<times> network) option" where
  "getCatalog creds n cursor net =
     (if \<not> configured creds then Some (Inl (Error ''Registry URL not configured''), net)
      else (case catalogPages net of
              [] \<Rightarrow> None
            | page # pages \<Rightarrow> Some (page, net\<lparr>catalogPages := pages\<rparr>)))"

text \<open>\<open>await this.enqueueRequest(() => this.getCatalog(pageSize, last))\<close>.\<close>

definition fetchPage ::
  "credentials option \<Rightarrow> string \<Rightarrow> network \<Rightarrow> ((error + catalog) \<times> network) option" where
  "fetchPage creds cursor net =
     (case getCatalog creds pageSize cursor net of
        None \<Rightarrow> None
      | Some (outcome, net1) \<Rightarrow>
          Some (enqueueRequest_await (CatalogReq pageSize cursor) outcome net1))"

text \<open>The body of the \<open>do ... while (last)\<close> loop after the page has arrived: the new
  value of \<open>repositories\<close> and of \<open>last\<close>. \<open>result.repositories?.length\<close> is falsy for a
  missing array and for an empty one.\<close>

definition nextCursor :: "string list \<Rightarrow> catalog \<Rightarrow> string list \<times> string" where
  "nextCursor repos result =
     (case repositories result of
        None \<Rightarrow> (repos, [])
      | Some rs \<Rightarrow>
          if length rs \<noteq> 0
          then (repos @ rs, if length rs = pageSize then List.last rs else [])
          else (repos, []))"

function getAllRepositories_loop ::
  "credentials option \<Rightarrow> string list \<Rightarrow> string \<Rightarrow> network
     \<Rightarrow> ((error + string list) \<times> network) option" where
  "getAllRepositories_loop creds repos cursor net =
     (case fetchPage creds cursor net of
        None \<Rightarrow> None
      | Some (Inl e, net1) \<Rightarrow> Some (Inl e, net1)
      | Some (Inr result, net1) \<Rightarrow>
          (if snd (nextCursor repos result) \<noteq> []
           then getAllRepositories_loop creds (fst (nextCursor repos result))
                  (snd (nextCursor repos result)) net1
           else Some (Inr (fst (nextCursor repos result)), net1)))"
  by pat_completeness auto
termination
proof (relation "measure (\<lambda>(creds, repos, cursor, net). length (catalogPages net))")
  show "wf (measure (\<lambda>(creds, repos, cursor, net). length (catalogPages net)))"
    by simp
next
  fix creds :: "credentials option" and repos :: "string list" and cursor :: string
    and net :: network and x2 x1 net1 result
  assume "fetchPage creds cursor net = Some x2" and "(x1, net1) = x2" and "x1 = Inr result"
  then have "fetchPage creds cursor net = Some (Inr result, net1)"
    by simp
  then have "length (catalogPages net1) < length (catalogPages net)"
    by (auto simp: fetchPage_def getCatalog_def enqueueRequest_await_def
          split: if_splits list.splits)
  then show "((creds, fst (nextCursor repos result), snd (nextCursor repos result), net1),
              (creds, repos, cursor, net))
               \<in> measure (\<lambda>(creds, repos, cursor, net). length (catalogPages net))"
    by simp
qed

declare getAllRepositories_loop.simps [simp del]

definition getAllRepositories ::
  "credentials option \<Rightarrow> network \<Rightarrow> ((error + string list) \<times> network) option" where
  "getAllRepositories creds net = getAllRepositories_loop creds [] [] net"

section \<open>Request throttler (processQueue, enqueueRequest)\<close>

text \<open>
  JavaScript runs the throttler on one thread; the driver loop of \<open>processQueue\<close> is
  suspended at its two \<open>await\<close>s and other code (further \<open>enqueueRequest\<close> calls) runs in
  between. The model is a state machine over the events that resume code:
  a call of \<open>enqueueRequest\<close>, the settling of the awaited \<open>requestFn()\<close> with its outcome,
  and the expiry of the delay timer. A task is named by a number that stands for its
  \<open>{resolve, reject, requestFn}\<close> entry. \<open>trace\<close> records what the throttler does:
  calling a task's \<open>requestFn\<close>, resolving or rejecting a task's promise, and starting a
  timer (with its duration and, for reference, the number of tasks queued at that moment).
\<close>

definition REQUEST_DELAY :: nat where
  "REQUEST_DELAY = 100"

datatype pc = Idle | AwaitTask nat | AwaitDelay

datatype 'a action =
  Started nat
| Resolved nat 'a
| Rejected nat error
| Delay nat nat

datatype 'a event =
  Enqueue nat
| Settled "error + 'a"
| DelayElapsed

record 'a throttler =
  requestQueue :: "nat list"
  isProcessing :: bool
  pc :: pc
  trace :: "'a action list"

definition idle_throttler :: "'a throttler" where
  "idle_throttler = \<lparr>requestQueue = [], isProcessing = False, pc = Idle, trace = []\<rparr>"

text \<open>The test of the \<open>while\<close> loop and the body up to \<open>await requestFn()\<close>; when the queue
  is empty the loop ends and \<open>isProcessing\<close> is reset.\<close>

definition loop_head :: "'a throttler \<Rightarrow> 'a throttler" where
  "loop_head s =
     (case requestQueue s of
        [] \<Rightarrow> s\<lparr>isProcessing := False, pc := Idle\<rparr>
      | t # q \<Rightarrow> s\<lparr>requestQueue := q, pc := AwaitTask t, trace := trace s @ [Started t]\<rparr>)"

definition processQueue :: "'a throttler \<Rightarrow> 'a throttler" where
  "processQueue s =
     (if isProcessing s \<or> length (requestQueue s) = 0 then s
      else loop_head (s\<lparr>isProcessing := True\<rparr>))"

definition enqueueRequest :: "nat \<Rightarrow> 'a throttler \<Rightarrow> 'a throttler" where
  "enqueueRequest t s = processQueue (s\<lparr>requestQueue := requestQueue s @ [t]\<rparr>)"

text \<open>The rest of the loop body, run when the awaited task has settled: \<open>resolve(result)\<close>
  or \<open>reject(error)\<close>, then the timer if the queue is not empty, else back to the loop
  test.\<close>

definition after_task :: "nat \<Rightarrow> error + 'a \<Rightarrow> 'a throttler \<Rightarrow> 'a throttler" where
  "after_task t r s =
     (let s1 = s\<lparr>trace := trace s @ [case r of Inr result \<Rightarrow> Resolved t result
                                                | Inl e \<Rightarrow> Rejected t e]\<rparr>
      in if length (requestQueue s1) > 0
         then s1\<lparr>pc := AwaitDelay,
                 trace := trace s1 @ [Delay REQUEST_DELAY (length (requestQueue s1))]\<rparr>
         else loop_head s1)"

fun step :: "'a event \<Rightarrow> 'a throttler \<Rightarrow> 'a throttler" where
  "step (Enqueue t) s = enqueueRequest t s"
| "step (Settled r) s = (case pc s of AwaitTask t \<Rightarrow> after_task t r s | _ \<Rightarrow> s)"
| "step DelayElapsed s = (case pc s of AwaitDelay \<Rightarrow> loop_head s | _ \<Rightarrow> s)"

definition run :: "'a event list \<Rightarrow> 'a throttler \<Rightarrow> 'a throttler" where
  "run evs s = foldl (\<lambda>s e. step e s) s evs"

text \<open>Reading a trace. \<open>observe\<close> follows a trace as an automaton that accepts exactly the
  traces in which tasks run one at a time: a task is started only when none is running,
  the promise settled is the one of the running task, and a timer is started only right
  after a task has completed and is followed by the start of the next task.\<close>

datatype phase = Quiet | Running nat | Completed | Waiting

fun observe :: "phase option \<Rightarrow> 'a action \<Rightarrow> phase option" where
  "observe (Some Quiet) (Started t) = Some (Running t)"
| "observe (Some Completed) (Started t) = Some (Running t)"
| "observe (Some Waiting) (Started t) = Some (Running t)"
| "observe (Some (Running t)) (Resolved t' v) = (if t' = t then Some Completed else None)"
| "observe (Some (Running t)) (Rejected t' e) = (if t' = t then Some Completed else None)"
| "observe (Some Completed) (Delay ms k) = Some Waiting"
| "observe _ _ = None"

definition one_at_a_time :: "'a action list \<Rightarrow> bool" where
  "one_at_a_time tr = (foldl observe (Some Quiet) tr \<noteq> None)"

text \<open>Where the driver loop stands in each phase of the trace.\<close>

fun phase_pc :: "phase \<Rightarrow> pc" where
  "phase_pc Quiet = Idle"
| "phase_pc (Running t) = AwaitTask t"
| "phase_pc Completed = Idle"
| "phase_pc Waiting = AwaitDelay"

fun started :: "'a action list \<Rightarrow> nat list" where
  "started [] = []"
| "started (Started t # tr) = t # started tr"
| "started (_ # tr) = started tr"

fun enqueued :: "'a event list \<Rightarrow> nat list" where
  "enqueued [] = []"
| "enqueued (Enqueue t # evs) = t # enqueued evs"
| "enqueued (_ # evs) = enqueued evs"

fun delays_ok :: "'a action list \<Rightarrow> bool" where
  "delays_ok [] = True"
| "delays_ok (Delay ms k # tr) = (ms = 100 \<and> k > 0 \<and> delays_ok tr)"
| "delays_ok (_ # tr) = delays_ok tr"

fun is_delay :: "'a action \<Rightarrow> bool" where
  "is_delay (Delay ms k) = True"
| "is_delay _ = False"

definition ends_with_delay :: "'a action list \<Rightarrow> bool" where
  "ends_with_delay tr = (tr \<noteq> [] \<and> is_delay (last tr))"

text \<open>What remains of an event or of an action when the outcome of the task is forgotten.\<close>

fun event_kind :: "'a event \<Rightarrow> unit event" where
  "event_kind (Enqueue t) = Enqueue t"
| "event_kind (Settled r) = Settled (Inr ())"
| "event_kind DelayElapsed = DelayElapsed"

fun action_kind :: "'a action \<Rightarrow> unit action" where
  "action_kind (Started t) = Started t"
| "action_kind (Resolved t v) = Resolved t ()"
| "action_kind (Rejected t e) = Resolved t ()"
| "action_kind (Delay ms k) = Delay ms k"

fun rejected :: "'a action list \<Rightarrow> nat list" where
  "rejected [] = []"
| "rejected (Rejected t e # tr) = t # rejected tr"
| "rejected (_ # tr) = rejected tr"

text \<open>The part of the throttler's state that decides what it does next, with the outcomes
  delivered so far forgotten.\<close>

definition control :: "'a throttler \<Rightarrow> nat list \<times> bool \<times> pc \<times> unit action list" where
  "control s = (requestQueue s, isProcessing s, pc s, map action_kind (trace s))"

text \<open>The invariant of the states the throttler reaches from its initial state.\<close>

definition throttler_inv :: "'a throttler \<Rightarrow> bool" where
  "throttler_inv s =
     ((isProcessing s = (pc s \<noteq> Idle)) \<and>
      (pc s = Idle \<longrightarrow> requestQueue s = []) \<and>
      (pc s = AwaitDelay \<longrightarrow> requestQueue s \<noteq> []) \<and>
      (\<exists>ph. foldl observe (Some Quiet) (trace s) = Some ph \<and> phase_pc ph = pc s) \<and>
      delays_ok (trace s) \<and>
      (ends_with_delay (trace s) = (pc s = AwaitDelay)))"

text \<open>Five tasks submitted in a burst, the second of which fails, and the same schedule
  with no failure.\<close>

definition burst_of_five :: "string event list" where
  "burst_of_five =
     [Enqueue 1, Enqueue 2, Enqueue 3, Enqueue 4, Enqueue 5,
      Settled (Inr ''a''), DelayElapsed,
      Settled (Inl (Error ''Resource not found'')), DelayElapsed,
      Settled (Inr ''c''), DelayElapsed,
      Settled (Inr ''d''), DelayElapsed,
      Settled (Inr ''e'')]"

definition burst_of_five_ok :: "string event list" where
  "burst_of_five_ok =
     [Enqueue 1, Enqueue 2, Enqueue 3, Enqueue 4, Enqueue 5,
      Settled (Inr ''a''), DelayElapsed,
      Settled (Inr ''b''), DelayElapsed,
      Settled (Inr ''c''), DelayElapsed,
      Settled (Inr ''d''), DelayElapsed,
      Settled (Inr ''e'')]"

text \<open>Tasks submitted one after the other, each after the one before has completed.\<close>

definition one_by_one :: "string event list" where
  "one_by_one = [Enqueue 1, Settled (Inr ''a''), Enqueue 2, Settled (Inr ''b'')]"

section \<open>Cache store (imageCache.js)\<close>

text \<open>
  \<open>localStorage\<close> maps keys to strings. A stored string is modelled by what
  \<open>JSON.parse\<close> makes of it: \<open>Doc v t\<close> is the text of \<open>{value: v, timestamp: t}\<close>
  (written by \<open>JSON.stringify\<close>, which the model takes to be read back unchanged), and
  \<open>Unparseable\<close> is any text on which \<open>JSON.parse\<close> throws. \<open>setItem\<close> throws when the
  quota is exceeded; \<open>getItem\<close> and \<open>removeItem\<close> do not throw. Every cache operation
  catches what is thrown inside it and logs a warning.
\<close>

datatype 'v stored = Unparseable | Doc 'v int

record 'v localStorage =
  items :: "string \<rightharpoonup> 'v stored"
  quotaExceeded :: bool

definition setItem :: "string \<Rightarrow> 'v stored \<Rightarrow> 'v localStorage \<Rightarrow> error + 'v localStorage" where
  "setItem k d ls =
     (if quotaExceeded ls then Inl (Error ''QuotaExceededError'')
      else Inr (ls\<lparr>items := (items ls)(k \<mapsto> d)\<rparr>))"

definition getItem :: "string \<Rightarrow> 'v localStorage \<Rightarrow> 'v stored option" where
  "getItem k ls = items ls k"

definition removeItem :: "string \<Rightarrow> 'v localStorage \<Rightarrow> 'v localStorage" where
  "removeItem k ls = ls\<lparr>items := (items ls)(k := None)\<rparr>"

definition CACHE_PREFIX :: string where
  "CACHE_PREFIX = ''registry_lens_cache:''"

definition CACHE_TTL :: int where
  "CACHE_TTL = 24 * 60 * 60 * 1000"

definition IMAGE_INFO :: string where
  "IMAGE_INFO = ''image_info''"

definition TAGS :: string where
  "TAGS = ''tags''"

definition REPOSITORIES :: string where
  "REPOSITORIES = ''repositories''"

definition getKey :: "string \<Rightarrow> string \<Rightarrow> string" where
  "getKey type identifier = CACHE_PREFIX @ type @ '':'' @ identifier"

text \<open>In each operation \<open>now\<close> is the value of \<open>Date.now()\<close>.\<close>

definition imageCache_clearImageInfo ::
  "string \<Rightarrow> string \<Rightarrow> 'v localStorage \<Rightarrow> 'v localStorage" where
  "imageCache_clearImageInfo repository tag ls =
     removeItem (getKey IMAGE_INFO (repository @ '':'' @ tag)) ls"

definition imageCache_clearTags :: "string \<Rightarrow> 'v localStorage \<Rightarrow> 'v localStorage" where
  "imageCache_clearTags repository ls = removeItem (getKey TAGS repository) ls"

definition imageCache_clearRepositories :: "'v localStorage \<Rightarrow> 'v localStorage" where
  "imageCache_clearRepositories ls = removeItem (getKey REPOSITORIES ''list'') ls"

definition imageCache_saveImageInfo ::
  "string \<Rightarrow> string \<Rightarrow> 'v \<Rightarrow> int \<Rightarrow> 'v localStorage \<Rightarrow> 'v localStorage" where
  "imageCache_saveImageInfo repository tag imageInfo now ls =
     (case setItem (getKey IMAGE_INFO (repository @ '':'' @ tag)) (Doc imageInfo now) ls of
        Inl e \<Rightarrow> ls
      | Inr ls' \<Rightarrow> ls')"

definition imageCache_getImageInfo ::
  "string \<Rightarrow> string \<Rightarrow> int \<Rightarrow> 'v localStorage \<Rightarrow> 'v option \<times> 'v localStorage" where
  "imageCache_getImageInfo repository tag now ls =
     (case getItem (getKey IMAGE_INFO (repository @ '':'' @ tag)) ls of
        None \<Rightarrow> (None, ls)
      | Some Unparseable \<Rightarrow> (None, ls)
      | Some (Doc v timestamp) \<Rightarrow>
          if now - timestamp > CACHE_TTL
          then (None, imageCache_clearImageInfo repository tag ls)
          else (Some v, ls))"

definition imageCache_saveTags ::
  "string \<Rightarrow> 'v \<Rightarrow> int \<Rightarrow> 'v localStorage \<Rightarrow> 'v localStorage" where
  "imageCache_saveTags repository tgs now ls =
     (case setItem (getKey TAGS repository) (Doc tgs now) ls of
        Inl e \<Rightarrow> ls
      | Inr ls' \<Rightarrow> ls')"

definition imageCache_getTags ::
  "string \<Rightarrow> int \<Rightarrow> 'v localStorage \<Rightarrow> 'v option \<times> 'v localStorage" where
  "imageCache_getTags repository now ls =
     (case getItem (getKey TAGS repository) ls of
        None \<Rightarrow> (None, ls)
      | Some Unparseable \<Rightarrow> (None, ls)
      | Some (Doc v timestamp) \<Rightarrow>
          if now - timestamp > CACHE_TTL
          then (None, imageCache_clearTags repository ls)
          else (Some v, ls))"

definition imageCache_saveRepositories :: "'v \<Rightarrow> int \<Rightarrow> 'v localStorage \<Rightarrow> 'v localStorage" where
  "imageCache_saveRepositories repos now ls =
     (case setItem (getKey REPOSITORIES ''list'') (Doc repos now) ls of
        Inl e \<Rightarrow> ls
      | Inr ls' \<Rightarrow> ls')"

definition imageCache_getRepositories ::
  "int \<Rightarrow> 'v localStorage \<Rightarrow> 'v option \<times> 'v localStorage" where
  "imageCache_getRepositories now ls =
     (case getItem (getKey REPOSITORIES ''list'') ls of
        None \<Rightarrow> (None, ls)
      | Some Unparseable \<Rightarrow> (None, ls)
      | Some (Doc v timestamp) \<Rightarrow>
          if now - timestamp > CACHE_TTL
          then (None, imageCache_clearRepositories ls)
          else (Some v, ls))"

section \<open>Credential store (credentialStore.js)\<close>

text \<open>
  The store keeps the credentials in memory and an entry in \<open>sessionStorage\<close> (modelled by
  its parsed content). The browser decides three things the store cannot: whether the
  Credential Management API exists, whether a call of it fails, and whether
  \<open>sessionStorage.setItem\<close> throws. \<open>browserCredential\<close> is the password credential the
  browser hands out (\<open>None\<close> when it has none or the user declines).
\<close>

record session_data =
  sd_registryUrl :: "string option"
  sd_username :: "string option"
  sd_password :: "string option"
  sd_useCredentialAPI :: bool

record credentialStore =
  memoryCredentials :: "credentials option"
  sessionItem :: "session_data option"
  supportsCredentialAPI :: bool
  browserCredential :: "(string \<times> string) option"
  credentialApiFails :: bool
  sessionStorageFails :: bool

text \<open>The fallback of \<open>save\<close>: the write to \<open>sessionStorage\<close> outside any \<open>try\<close>.\<close>

definition save_session ::
  "string option \<Rightarrow> string option \<Rightarrow> string option \<Rightarrow> credentialStore
     \<Rightarrow> (error + string) \<times> credentialStore" where
  "save_session url user pass cs =
     (if sessionStorageFails cs then (Inl (Error ''QuotaExceededError''), cs)
      else (Inr ''session-storage'',
            cs\<lparr>sessionItem := Some \<lparr>sd_registryUrl = url, sd_username = or_null user,
                                     sd_password = or_null pass,
                                     sd_useCredentialAPI = False\<rparr>\<rparr>))"

definition credentialStore_save ::
  "string option \<Rightarrow> string option \<Rightarrow> string option \<Rightarrow> credentialStore
     \<Rightarrow> (error + string) \<times> credentialStore" where
  "credentialStore_save url user pass cs =
     (let cs1 = cs\<lparr>memoryCredentials :=
                     Some \<lparr>registryUrl = url, username = user, password = pass\<rparr>\<rparr>
      in if supportsCredentialAPI cs1 \<and> truthy_str user \<and> truthy_str pass then
           (if credentialApiFails cs1 then save_session url user pass cs1
            else (let cs2 = cs1\<lparr>browserCredential := Some (the user, the pass)\<rparr>
                  in if sessionStorageFails cs2 then save_session url user pass cs2
                     else (Inr ''credential-api'',
                           cs2\<lparr>sessionItem :=
                                  Some \<lparr>sd_registryUrl = url, sd_username = None,
                                        sd_password = None, sd_useCredentialAPI = True\<rparr>\<rparr>)))
         else save_session url user pass cs1)"

definition credentialStore_load ::
  "credentialStore \<Rightarrow> credentials option \<times> credentialStore" where
  "credentialStore_load cs =
     (case memoryCredentials cs of
        Some c \<Rightarrow> (Some c, cs)
      | None \<Rightarrow>
          (case sessionItem cs of
             None \<Rightarrow> (None, cs)
           | Some data \<Rightarrow>
               (case (if sd_useCredentialAPI data \<and> supportsCredentialAPI cs
                         \<and> \<not> credentialApiFails cs
                      then browserCredential cs else None) of
                  Some (ident, pw) \<Rightarrow>
                    (let c = \<lparr>registryUrl = sd_registryUrl data, username = Some ident,
                              password = Some pw\<rparr>
                     in (Some c, cs\<lparr>memoryCredentials := Some c\<rparr>))
                | None \<Rightarrow>
                    if truthy_str (sd_registryUrl data) then
                      (let c = \<lparr>registryUrl = sd_registryUrl data,
                                username = or_str (sd_username data) (Some []),
                                password = or_str (sd_password data) (Some [])\<rparr>
                       in (Some c, cs\<lparr>memoryCredentials := Some c\<rparr>))
                    else (None, cs))))"

definition credentialStore_clear :: "credentialStore \<Rightarrow> credentialStore" where
  "credentialStore_clear cs = cs\<lparr>memoryCredentials := None, sessionItem := None\<rparr>"

definition credentialStore_getStorageInfo :: "credentialStore \<Rightarrow> string" where
  "credentialStore_getStorageInfo cs =
     (if supportsCredentialAPI cs then ''Credential Management API'' else ''Session Storage'')"

section \<open>Orchestration layer (useRegistry.js)\<close>

text \<open>
  The values that travel between the registry client, the cache and the reactive state:
  an image info object or an array of names (tags, repositories). \<open>CForeign p\<close> is the
  value a JavaScript object answers under the property name \<open>p\<close> without owning it (for
  \<open>constructor\<close>, the \<open>Object\<close> function). All of them are truthy.
\<close>

datatype cached = CInfo image_info | CNames "string list" | CForeign string

fun manifest_field :: "cached \<Rightarrow> manifest option" where
  "manifest_field (CInfo info) = Some (info_manifest info)"
| "manifest_field (CNames ns) = None"
| "manifest_field (CForeign p) = None"

record state =
  isInitializing :: bool
  isConnected :: bool
  isLoading :: bool
  st_error :: "string option"
  st_repositories :: cached
  selectedRepo :: "string option"
  st_tags :: "string \<rightharpoonup> cached"
  st_manifests :: "string \<rightharpoonup> manifest"
  imageInfos :: "string \<rightharpoonup> cached"
  st_filter :: string
  storageInfo :: "string option"
  st_registryUrl :: "string option"

text \<open>
  Everything the composable works on: its reactive state, the credentials field of the
  registry client, the credential store, the browser's \<open>localStorage\<close> and the registry.

  \<open>state.tags\<close>, \<open>state.manifests\<close> and \<open>state.imageInfos\<close> are plain objects (\<open>{}\<close>) behind
  the reactive proxy, used as dictionaries. A lookup \<open>obj[name]\<close> finds the object's own
  property, and for a name the object does not own it still answers with what the object
  inherits from \<open>Object.prototype\<close> (\<open>constructor\<close>, \<open>toString\<close>, ...) or with what the
  proxy answers by itself. Which names these are is fixed by the JavaScript runtime and
  the reactivity library, not by this repository: \<open>builtins\<close> holds the truthy ones.
\<close>

record app =
  state :: state
  api_credentials :: "credentials option"
  credStore :: credentialStore
  storage :: "cached localStorage"
  registry :: network
  builtins :: "string \<rightharpoonup> cached"

text \<open>\<open>obj[name]\<close> for one of the dictionaries of the state.\<close>

definition property :: "app \<Rightarrow> (string \<rightharpoonup> cached) \<Rightarrow> string \<Rightarrow> cached option" where
  "property a obj name = (case obj name of Some v \<Rightarrow> Some v | None \<Rightarrow> builtins a name)"

definition initial_state :: state where
  "initial_state =
     \<lparr>isInitializing = True, isConnected = False, isLoading = False, st_error = None,
      st_repositories = CNames [], selectedRepo = None, st_tags = Map.empty,
      st_manifests = Map.empty, imageInfos = Map.empty, st_filter = [],
      storageInfo = None, st_registryUrl = None\<rparr>"

subsection \<open>The session functions of the registry client\<close>

definition getCredentials :: "app \<Rightarrow> credentials option" where
  "getCredentials a =
     (case api_credentials a of Some c \<Rightarrow> Some c | None \<Rightarrow> memoryCredentials (credStore a))"

definition isAuthenticated :: "app \<Rightarrow> bool" where
  "isAuthenticated a = (case getCredentials a of None \<Rightarrow> False | Some c \<Rightarrow> registryUrl c \<noteq> None)"

definition initCredentials :: "app \<Rightarrow> app" where
  "initCredentials a =
     (case credentialStore_load (credStore a) of
        (creds, cs) \<Rightarrow> a\<lparr>api_credentials := creds, credStore := cs\<rparr>)"

definition saveCredentials ::
  "string option \<Rightarrow> string option \<Rightarrow> string option \<Rightarrow> app \<Rightarrow> (error + string) \<times> app" where
  "saveCredentials url user pass a =
     (let a1 = a\<lparr>api_credentials := Some \<lparr>registryUrl = url, username = user, password = pass\<rparr>\<rparr>
      in case credentialStore_save url user pass (credStore a1) of
           (result, cs) \<Rightarrow> (result, a1\<lparr>credStore := cs\<rparr>))"

definition clearCredentials :: "app \<Rightarrow> app" where
  "clearCredentials a = a\<lparr>api_credentials := None, credStore := credentialStore_clear (credStore a)\<rparr>"

text \<open>\<open>testConnection\<close> never throws: \<open>None\<close> is \<open>{success: true}\<close>, \<open>Some msg\<close> is
  \<open>{success: false, error: msg}\<close>. Its request is not throttled.\<close>

definition testConnection :: "app \<Rightarrow> string option" where
  "testConnection a =
     (case request (getCredentials a) (pingOutcome (registry a)) of
        Inr u \<Rightarrow> None
      | Inl e \<Rightarrow> Some (message e))"

definition getTags ::
  "credentials option \<Rightarrow> string \<Rightarrow> network \<Rightarrow> (error + tag_list) \<times> network" where
  "getTags creds repository nw =
     enqueueRequest_await (TagsReq repository) (request creds (tagsOf nw repository)) nw"

subsection \<open>Read-through operations\<close>

text \<open>
  Each operation is an \<open>async\<close> function; its result is the outcome of the promise it
  returns (\<open>Inr\<close> fulfilled, \<open>Inl\<close> rejected) and the state it leaves. \<open>now\<close> is the value of
  \<open>Date.now()\<close> during the operation. \<open>loadRepositories\<close> is \<open>None\<close> when the catalog never
  answers.
\<close>

definition loadRepositories :: "int \<Rightarrow> app \<Rightarrow> ((error + unit) \<times> app) option" where
  "loadRepositories now a =
     (let a1 = a\<lparr>state := (state a)\<lparr>isLoading := True, st_error := None\<rparr>\<rparr>
      in case imageCache_getRepositories now (storage a1) of
           (Some v, ls) \<Rightarrow>
             Some (Inr (), a1\<lparr>storage := ls,
                               state := (state a1)\<lparr>st_repositories := v, isLoading := False\<rparr>\<rparr>)
         | (None, ls) \<Rightarrow>
             (case getAllRepositories (getCredentials a1) (registry a1) of
                None \<Rightarrow> None
              | Some (Inl err, net1) \<Rightarrow>
                  Some (Inr (), a1\<lparr>storage := ls, registry := net1,
                                    state := (state a1)\<lparr>st_error := Some (message err),
                                                       isLoading := False\<rparr>\<rparr>)
              | Some (Inr repos, net1) \<Rightarrow>
                  Some (Inr (), a1\<lparr>storage := imageCache_saveRepositories (CNames repos) now ls,
                                    registry := net1,
                                    state := (state a1)\<lparr>st_repositories := CNames repos,
                                                       isLoading := False\<rparr>\<rparr>)))"

definition loadTags :: "string \<Rightarrow> int \<Rightarrow> app \<Rightarrow> (error + cached) \<times> app" where
  "loadTags repository now a =
     (case property a (st_tags (state a)) repository of
        Some v \<Rightarrow> (Inr v, a)
      | None \<Rightarrow>
          (case imageCache_getTags repository now (storage a) of
             (Some v, ls) \<Rightarrow>
               (Inr v, a\<lparr>storage := ls,
                          state := (state a)\<lparr>st_tags := (st_tags (state a))(repository \<mapsto> v)\<rparr>\<rparr>)
           | (None, ls) \<Rightarrow>
               (case getTags (getCredentials a) repository (registry a) of
                  (Inl err, net1) \<Rightarrow>
                    (Inr (CNames []),
                     a\<lparr>storage := ls, registry := net1,
                       state := (state a)\<lparr>st_tags :=
                                  (st_tags (state a))(repository \<mapsto> CNames [])\<rparr>\<rparr>)
                | (Inr result, net1) \<Rightarrow>
                    (let v = CNames (case tags result of Some ts \<Rightarrow> ts | None \<Rightarrow> [])
                     in (Inr v,
                         a\<lparr>storage := imageCache_saveTags repository v now ls, registry := net1,
                           state := (state a)\<lparr>st_tags :=
                                      (st_tags (state a))(repository \<mapsto> v)\<rparr>\<rparr>)))))"

definition loadImageInfo ::
  "string \<Rightarrow> string \<Rightarrow> int \<Rightarrow> app \<Rightarrow> (error + cached option) \<times> app" where
  "loadImageInfo repository tag now a =
     (let key = repository @ '':'' @ tag
      in case property a (imageInfos (state a)) key of
           Some v \<Rightarrow> (Inr (Some v), a)
         | None \<Rightarrow>
             (case imageCache_getImageInfo repository tag now (storage a) of
                (Some v, ls) \<Rightarrow>
                  (Inr (Some v),
                   a\<lparr>storage := ls,
                     state := (state a)\<lparr>imageInfos := (imageInfos (state a))(key \<mapsto> v),
                                        st_manifests :=
                                          (st_manifests (state a))(key := manifest_field v)\<rparr>\<rparr>)
              | (None, ls) \<Rightarrow>
                  (case getImageInfo (getCredentials a) repository tag (registry a) of
                     (Inl err, net1) \<Rightarrow> (Inr None, a\<lparr>storage := ls, registry := net1\<rparr>)
                   | (Inr info, net1) \<Rightarrow>
                       (Inr (Some (CInfo info)),
                        a\<lparr>storage := imageCache_saveImageInfo repository tag (CInfo info) now ls,
                          registry := net1,
                          state := (state a)\<lparr>imageInfos :=
                                       (imageInfos (state a))(key \<mapsto> CInfo info),
                                     st_manifests :=
                                       (st_manifests (state a))(key \<mapsto> info_manifest info)\<rparr>\<rparr>))))"

subsection \<open>Session lifecycle\<close>

datatype connect_result = ConnectOk string | ConnectFailed string

text \<open>The two failure exits of \<open>connect\<close> (the \<open>else\<close> branch and the \<open>catch\<close> block) do the
  same: record the message, forget the registry URL, clear the credentials. The
  \<open>finally\<close> block resets \<open>isLoading\<close>.\<close>

definition connect_failed :: "string \<Rightarrow> app \<Rightarrow> connect_result \<times> app" where
  "connect_failed msg a =
     (let a1 = clearCredentials
                 (a\<lparr>state := (state a)\<lparr>st_error := Some msg, st_registryUrl := None\<rparr>\<rparr>)
      in (ConnectFailed msg, a1\<lparr>state := (state a1)\<lparr>isLoading := False\<rparr>\<rparr>))"

definition connect ::
  "string option \<Rightarrow> string option \<Rightarrow> string option \<Rightarrow> int \<Rightarrow> app
     \<Rightarrow> (connect_result \<times> app) option" where
  "connect url user pass now a =
     (let a1 = a\<lparr>state := (state a)\<lparr>isLoading := True, st_error := None\<rparr>\<rparr>
      in case saveCredentials url user pass a1 of
           (Inl err, a2) \<Rightarrow> Some (connect_failed (message err) a2)
         | (Inr meth, a2) \<Rightarrow>
             (let a3 = a2\<lparr>state := (state a2)\<lparr>storageInfo :=
                                      Some (credentialStore_getStorageInfo (credStore a2))\<rparr>\<rparr>
              in case testConnection a3 of
                   None \<Rightarrow>
                     (case loadRepositories now
                             (a3\<lparr>state := (state a3)\<lparr>isConnected := True,
                                                     st_registryUrl := url\<rparr>\<rparr>) of
                        None \<Rightarrow> None
                      | Some (r, a4) \<Rightarrow>
                          Some (ConnectOk meth,
                                a4\<lparr>state := (state a4)\<lparr>isLoading := False\<rparr>\<rparr>))
                 | Some msg \<Rightarrow> Some (connect_failed msg a3)))"

definition reconnect :: "int \<Rightarrow> app \<Rightarrow> (bool \<times> app) option" where
  "reconnect now a =
     (let a1 = initCredentials a
      in if \<not> isAuthenticated a1
         then Some (False, a1\<lparr>state := (state a1)\<lparr>isInitializing := False\<rparr>\<rparr>)
         else
           (let a2 = a1\<lparr>state := (state a1)\<lparr>isLoading := True, st_error := None,
                           storageInfo := Some (credentialStore_getStorageInfo (credStore a1))\<rparr>\<rparr>
            in case testConnection a2 of
                 None \<Rightarrow>
                   (case loadRepositories now
                           (a2\<lparr>state := (state a2)\<lparr>isConnected := True,
                                   st_registryUrl :=
                                     or_null (case getCredentials a2 of
                                                None \<Rightarrow> None
                                              | Some c \<Rightarrow> registryUrl c)\<rparr>\<rparr>) of
                      None \<Rightarrow> None
                    | Some (r, a3) \<Rightarrow>
                        Some (True, a3\<lparr>state := (state a3)\<lparr>isLoading := False,
                                                          isInitializing := False\<rparr>\<rparr>))
               | Some msg \<Rightarrow>
                   Some (False, a2\<lparr>state := (state a2)\<lparr>isLoading := False,
                                                      isInitializing := False\<rparr>\<rparr>)))"

section \<open>Example documents\<close>

text \<open>
  A registry used to run the definitions on concrete inputs: repository \<open>app\<close> holds a
  single-platform image with layers of 10, 20 and 30 bytes and a config object of 5 bytes;
  \<open>multi\<close> and \<open>blobless\<close> hold a two-platform index (manifest sizes 100 and 150);
  \<open>attested\<close> holds a list without media type whose second entry has no platform.
  No blob can be fetched, and a platform manifest only in \<open>blobless\<close>.
\<close>

definition example_credentials :: credentials where
  "example_credentials =
     \<lparr>registryUrl = Some ''https://registry.example.org'', username = None, password = None\<rparr>"

definition example_single_manifest :: manifest where
  "example_single_manifest =
     \<lparr>mediaType = Some ''application/vnd.docker.distribution.manifest.v2+json'',
      layers = Some [\<lparr>l_digest = Some ''sha256:a'', l_size = Some 10\<rparr>,
                     \<lparr>l_digest = Some ''sha256:b'', l_size = Some 20\<rparr>,
                     \<lparr>l_digest = Some ''sha256:c'', l_size = Some 30\<rparr>],
      config = Some \<lparr>c_digest = Some ''sha256:cfg'', c_size = Some 5\<rparr>,
      manifests = None\<rparr>"

definition example_platform :: "string \<Rightarrow> platform" where
  "example_platform arch =
     \<lparr>p_os = Some ''linux'', p_architecture = Some arch, p_variant = None, p_os_version = None\<rparr>"

definition example_list_manifest :: manifest where
  "example_list_manifest =
     \<lparr>mediaType = Some ''application/vnd.oci.image.index.v1+json'',
      layers = None, config = None,
      manifests = Some [\<lparr>e_platform = Some (example_platform ''amd64''),
                          e_digest = Some ''sha256:m1'', e_size = Some 100\<rparr>,
                        \<lparr>e_platform = Some (example_platform ''arm64''),
                          e_digest = Some ''sha256:m2'', e_size = Some 150\<rparr>]\<rparr>"

definition example_attested_list :: manifest where
  "example_attested_list =
     \<lparr>mediaType = None, layers = None, config = None,
      manifests = Some [\<lparr>e_platform = Some (example_platform ''amd64''),
                          e_digest = Some ''sha256:m1'', e_size = Some 100\<rparr>,
                        \<lparr>e_platform = None,
                          e_digest = Some ''sha256:att'', e_size = Some 150\<rparr>]\<rparr>"

definition example_network :: network where
  "example_network =
     \<lparr>pingOutcome = Inr (),
      catalogPages = [],
      tagsOf = (\<lambda>repository. Inl (Error ''Resource not found'')),
      manifestOf = (\<lambda>repository reference.
         if repository = ''app'' then Inr example_single_manifest
         else if repository = ''multi'' then Inr example_list_manifest
         else if repository = ''attested'' then Inr example_attested_list
         else if repository = ''blobless'' then Inr example_list_manifest
         else Inl (Error ''Resource not found'')),
      platformManifestOf = (\<lambda>repository reference.
         if repository = ''blobless'' then Inr example_single_manifest
         else Inl (Error ''Resource not found'')),
      blobOf = (\<lambda>repository dgst. Inl (Error ''Resource not found'')),
      calls = []\<rparr>"

text \<open>A mock catalog returning pages of 100, 100 and 37 names.\<close>

definition example_pages :: "(error + catalog) list" where
  "example_pages =
     [Inr \<lparr>repositories = Some (replicate 100 ''alpha'')\<rparr>,
      Inr \<lparr>repositories = Some (replicate 100 ''beta'')\<rparr>,
      Inr \<lparr>repositories = Some (replicate 37 ''gamma'')\<rparr>]"

text \<open>An empty browser storage that accepts writes.\<close>

definition empty_storage :: "'v localStorage" where
  "empty_storage = \<lparr>items = Map.empty, quotaExceeded = False\<rparr>"

text \<open>The storage after the tags of \<open>app\<close> have been saved at time 1000.\<close>

definition saved_tags :: "string list localStorage" where
  "saved_tags = imageCache_saveTags ''app'' [''latest'', ''v1''] 1000 empty_storage"

text \<open>A registry that cannot be reached, a browser session that holds credentials saved
  earlier, and the application in its initial state on top of them; \<open>signed_in_app\<close> is the
  same application with the credentials already loaded into the client.\<close>

definition offline_network :: network where
  "offline_network =
     \<lparr>pingOutcome = Inl (Error ''Failed to fetch''),
      catalogPages = [Inl (Error ''Failed to fetch'')],
      tagsOf = (\<lambda>repository. Inl (Error ''Failed to fetch'')),
      manifestOf = (\<lambda>repository reference. Inl (Error ''Failed to fetch'')),
      platformManifestOf = (\<lambda>repository reference. Inl (Error ''Failed to fetch'')),
      blobOf = (\<lambda>repository dgst. Inl (Error ''Failed to fetch'')),
      calls = []\<rparr>"

definition example_store :: credentialStore where
  "example_store =
     \<lparr>memoryCredentials = None,
      sessionItem = Some \<lparr>sd_registryUrl = Some ''https://registry.example.org'',
                           sd_username = Some ''alice'', sd_password = Some ''secret'',
                           sd_useCredentialAPI = False\<rparr>,
      supportsCredentialAPI = False, browserCredential = None,
      credentialApiFails = False, sessionStorageFails = False\<rparr>"

text \<open>The members of \<open>Object.prototype\<close>, and the two flags the reactive proxy answers
  with a truthy value.\<close>

definition object_prototype :: "string list" where
  "object_prototype =
     [''constructor'', ''hasOwnProperty'', ''isPrototypeOf'', ''propertyIsEnumerable'',
      ''toLocaleString'', ''toString'', ''valueOf'', ''__proto__'',
      ''__defineGetter__'', ''__defineSetter__'', ''__lookupGetter__'', ''__lookupSetter__'',
      ''__v_isReactive'', ''__v_raw'']"

definition example_builtins :: "string \<rightharpoonup> cached" where
  "example_builtins name = (if name \<in> set object_prototype then Some (CForeign name) else None)"

definition example_app :: app where
  "example_app =
     \<lparr>state = initial_state, api_credentials = None, credStore = example_store,
      storage = empty_storage, registry = offline_network, builtins = example_builtins\<rparr>"

definition signed_in_app :: app where
  "signed_in_app = example_app\<lparr>api_credentials := Some example_credentials\<rparr>"

section \<open>Properties of the registry client\<close>

subsection \<open>Auxiliary facts\<close>

lemma round_double_exact: "\<bar>n\<bar> \<le> 9007199254740992 \<Longrightarrow> round_double n = Num n"
proof -
  assume "\<bar>n\<bar> \<le> 9007199254740992"
  then have "\<bar>n\<bar> \<le> 2 ^ 53" by simp
  then show ?thesis by (simp only: round_double_def Let_def if_True)
qed

lemma js_add_exact:
  "\<bar>x\<bar> \<le> 9007199254740992 \<Longrightarrow> \<bar>a + x\<bar> \<le> 9007199254740992
     \<Longrightarrow> js_add (Num a) x = Num (a + x)"
  by (simp add: round_double_exact)

lemma fold_js_add:
  "\<bar>a\<bar> + sum_list (map (\<lambda>x. \<bar>f x\<bar>) xs) \<le> 9007199254740992 \<Longrightarrow>
     fold (\<lambda>x sum. js_add sum (f x)) xs (Num a) = Num (a + sum_list (map f xs))"
proof (induction xs arbitrary: a)
  case Nil
  show ?case by simp
next
  case (Cons x xs)
  have nn: "0 \<le> sum_list (map (\<lambda>x. \<bar>f x\<bar>) xs)"
    by (rule sum_list_nonneg) auto
  have 1: "\<bar>f x\<bar> \<le> 9007199254740992"
    using Cons.prems nn by simp
  have 2: "\<bar>a + f x\<bar> \<le> 9007199254740992"
    using Cons.prems nn by simp
  have 3: "\<bar>a + f x\<bar> + sum_list (map (\<lambda>x. \<bar>f x\<bar>) xs) \<le> 9007199254740992"
    using Cons.prems by simp
  show ?case
    using Cons.IH [OF 3] js_add_exact [OF 1 2] by (simp add: add.assoc)
qed

lemma or_zero_eq: "or_zero x = (case x of None \<Rightarrow> 0 | Some n \<Rightarrow> n)"
  by (simp add: or_zero_def truthy_num_def split: option.splits)

lemma singleTotalSize_eq:
  assumes "sum_list (map (\<lambda>l. \<bar>case l_size l of None \<Rightarrow> 0 | Some n \<Rightarrow> n\<bar>)
                         (case layers m of None \<Rightarrow> [] | Some ls \<Rightarrow> ls))
           + \<bar>case config m of None \<Rightarrow> 0
              | Some c \<Rightarrow> (case c_size c of None \<Rightarrow> 0 | Some n \<Rightarrow> n)\<bar>
           \<le> 9007199254740992"
  shows "singleTotalSize m =
     Num (sum_list (map (\<lambda>l. case l_size l of None \<Rightarrow> 0 | Some n \<Rightarrow> n)
                        (case layers m of None \<Rightarrow> [] | Some ls \<Rightarrow> ls))
          + (case config m of None \<Rightarrow> 0
             | Some c \<Rightarrow> (case c_size c of None \<Rightarrow> 0 | Some n \<Rightarrow> n)))"
proof -
  let ?ls = "case layers m of None \<Rightarrow> [] | Some ls \<Rightarrow> ls"
  let ?f = "\<lambda>l. case l_size l of None \<Rightarrow> 0 | Some n \<Rightarrow> n"
  let ?c = "case config m of None \<Rightarrow> 0
            | Some c \<Rightarrow> (case c_size c of None \<Rightarrow> 0 | Some n \<Rightarrow> n)"
  have nn: "0 \<le> sum_list (map (\<lambda>l. \<bar>?f l\<bar>) ?ls)"
    by (rule sum_list_nonneg) auto
  have ab: "\<bar>sum_list (map ?f ?ls)\<bar> \<le> sum_list (map (\<lambda>l. \<bar>?f l\<bar>) ?ls)"
    using sum_list_abs [of "map ?f ?ls"] by (simp add: comp_def)
  have b0: "\<bar>0::int\<bar> + sum_list (map (\<lambda>l. \<bar>?f l\<bar>) ?ls) \<le> 9007199254740992"
    using assms by simp
  have total0: "(case layers m of None \<Rightarrow> Num 0
                 | Some ls \<Rightarrow> fold (\<lambda>l sum. js_add sum (or_zero (l_size l))) ls (Num 0))
                = Num (sum_list (map ?f ?ls))"
    using fold_js_add [OF b0] by (simp add: or_zero_eq split: option.splits)
  have c1: "\<bar>?c\<bar> \<le> 9007199254740992"
    using assms nn by simp
  have c2: "\<bar>sum_list (map ?f ?ls) + ?c\<bar> \<le> 9007199254740992"
    using assms ab by simp
  show ?thesis
    unfolding singleTotalSize_def total0 Let_def
    using js_add_exact [OF c1 c2]
    by (auto simp: truthy_num_def split: option.splits)
qed

lemma listTotalSize_eq:
  assumes "sum_list (map (\<lambda>e. \<bar>case e_size e of None \<Rightarrow> 0 | Some n \<Rightarrow> n\<bar>)
                         (case manifests m of None \<Rightarrow> [] | Some ms \<Rightarrow> ms))
           \<le> 9007199254740992"
  shows "listTotalSize m =
     Num (sum_list (map (\<lambda>e. case e_size e of None \<Rightarrow> 0 | Some n \<Rightarrow> n)
                        (case manifests m of None \<Rightarrow> [] | Some ms \<Rightarrow> ms)))"
proof -
  let ?es = "case manifests m of None \<Rightarrow> [] | Some ms \<Rightarrow> ms"
  let ?f = "\<lambda>e. case e_size e of None \<Rightarrow> 0 | Some n \<Rightarrow> n"
  have b0: "\<bar>0::int\<bar> + sum_list (map (\<lambda>e. \<bar>?f e\<bar>) ?es) \<le> 9007199254740992"
    using assms by simp
  show ?thesis
    using fold_js_add [OF b0]
    by (simp add: listTotalSize_def or_zero_eq split: option.splits)
qed

text \<open>Beyond \<open>2^53\<close> the sums are rounded as the doubles of the code are: layers of
  \<open>2^53\<close> bytes and 1 byte total \<open>2^53\<close>.\<close>

lemma singleTotalSize_rounds:
  "singleTotalSize \<lparr>mediaType = None,
                     layers = Some [\<lparr>l_digest = None, l_size = Some 9007199254740992\<rparr>,
                                    \<lparr>l_digest = None, l_size = Some 1\<rparr>],
                     config = None, manifests = None\<rparr>
     = Num 9007199254740992"
proof -
  have "bitlen 9007199254740993 = 54"
    by (simp add: bitlen.simps)
  then have "round_double 9007199254740993 = Num 9007199254740992"
    by (simp add: round_double_def Let_def)
  then show ?thesis
    by (simp add: singleTotalSize_def or_zero_def truthy_num_def round_double_exact)
qed

lemma sum_list_filter_split:
  "sum_list (map f (filter P xs)) + sum_list (map f (filter (\<lambda>x. \<not> P x) xs))
     = (sum_list (map f xs) :: int)"
  by (induction xs) simp_all

lemma singlePlatformInfo_fields:
  "totalSize (fst (singlePlatformInfo creds repository m net)) = singleTotalSize m"
  "isMultiPlatform (fst (singlePlatformInfo creds repository m net)) = False"
  by (simp_all add: singlePlatformInfo_def split: prod.splits)

lemma multiPlatformInfo_fields:
  "totalSize (fst (multiPlatformInfo creds repository m net)) = listTotalSize m"
  "isMultiPlatform (fst (multiPlatformInfo creds repository m net)) = True"
  "platforms (fst (multiPlatformInfo creds repository m net)) = listPlatforms m"
  by (simp_all add: multiPlatformInfo_def Let_def split: prod.splits)

lemma getImageInfo_single:
  assumes "fst (getManifest creds repository tag net) = Inr m" "\<not> truthy (isManifestList m)"
  shows "fst (getImageInfo creds repository tag net) =
           Inr (fst (singlePlatformInfo creds repository m
                       (snd (getManifest creds repository tag net))))"
  using assms
  by (cases "getManifest creds repository tag net") (auto simp: getImageInfo_def split: prod.splits)

lemma getImageInfo_multi:
  assumes "fst (getManifest creds repository tag net) = Inr m" "truthy (isManifestList m)"
  shows "fst (getImageInfo creds repository tag net) =
           Inr (fst (multiPlatformInfo creds repository m
                       (snd (getManifest creds repository tag net))))"
  using assms
  by (cases "getManifest creds repository tag net") (auto simp: getImageInfo_def split: prod.splits)

lemma getManifest_ok_configured:
  "fst (getManifest creds repository tag net) = Inr m \<Longrightarrow> configured creds"
  by (simp add: getManifest_def enqueueRequest_await_def request_def split: if_splits)

lemma listPlatforms_digests:
  "map (\<lambda>d. (pd_digest d, pd_size d)) (listPlatforms m) =
   map (\<lambda>e. (e_digest e, e_size e))
       (filter (\<lambda>e. e_platform e \<noteq> None) (case manifests m of None \<Rightarrow> [] | Some ms \<Rightarrow> ms))"
proof (cases "manifests m")
  case None
  then show ?thesis by (simp add: listPlatforms_def)
next
  case (Some ms)
  have "map (\<lambda>d. (pd_digest d, pd_size d)) (List.map_filter platformDescriptor ms) =
        map (\<lambda>e. (e_digest e, e_size e)) (filter (\<lambda>e. e_platform e \<noteq> None) ms)"
    by (induction ms) (auto simp: map_filter_simps platformDescriptor_def split: option.splits)
  with Some show ?thesis by (simp add: listPlatforms_def)
qed

lemma listPlatforms_map:
  "listPlatforms m =
     map (\<lambda>e. \<lparr>pd_os = p_os (the (e_platform e)),
               pd_architecture = p_architecture (the (e_platform e)),
               pd_variant = or_null (p_variant (the (e_platform e))),
               pd_digest = e_digest e, pd_size = e_size e\<rparr>)
         (filter (\<lambda>e. e_platform e \<noteq> None) (case manifests m of None \<Rightarrow> [] | Some ms \<Rightarrow> ms))"
proof (cases "manifests m")
  case None
  then show ?thesis by (simp add: listPlatforms_def)
next
  case (Some ms)
  have "List.map_filter platformDescriptor ms =
        map (\<lambda>e. \<lparr>pd_os = p_os (the (e_platform e)),
                  pd_architecture = p_architecture (the (e_platform e)),
                  pd_variant = or_null (p_variant (the (e_platform e))),
                  pd_digest = e_digest e, pd_size = e_size e\<rparr>)
            (filter (\<lambda>e. e_platform e \<noteq> None) ms)"
    by (induction ms) (auto simp: map_filter_simps platformDescriptor_def split: option.splits)
  with Some show ?thesis by (simp add: listPlatforms_def)
qed

lemma listPlatforms_length:
  "length (listPlatforms m) =
   length (filter (\<lambda>e. e_platform e \<noteq> None) (case manifests m of None \<Rightarrow> [] | Some ms \<Rightarrow> ms))"
  using arg_cong [OF listPlatforms_digests [of m], of length] by simp

lemma fetchFirstPlatform_manifest_fails:
  assumes "configured creds"
    and "platformManifestOf net repository
           (case pd_digest p of None \<Rightarrow> ''undefined'' | Some d \<Rightarrow> d) = Inl e"
  shows "fst (fetchFirstPlatform creds repository (p # ps) net) = (None, None)"
  using assms by (simp add: fetchFirstPlatform_def enqueueRequest_await_def request_def)

lemma fetchFirstPlatform_blob_fails:
  assumes "configured creds"
    and "platformManifestOf net repository
           (case pd_digest p of None \<Rightarrow> ''undefined'' | Some d \<Rightarrow> d) = Inr pm"
    and "config pm = Some c" "c_digest c = Some d" "d \<noteq> []" "blobOf net repository d = Inl e"
  shows "fst (fetchFirstPlatform creds repository (p # ps) net) = (None, None)"
  using assms
  by (simp add: fetchFirstPlatform_def enqueueRequest_await_def request_def getBlob_def truthy_str_def)

lemma multiPlatformInfo_degraded:
  assumes "fst (fetchFirstPlatform creds repository (listPlatforms m) net) = (None, None)"
  shows "created (fst (multiPlatformInfo creds repository m net)) = None \<and>
         author (fst (multiPlatformInfo creds repository m net)) = None \<and>
         dockerVersion (fst (multiPlatformInfo creds repository m net)) = None \<and>
         info_config (fst (multiPlatformInfo creds repository m net)) = None \<and>
         firstManifest (fst (multiPlatformInfo creds repository m net)) = None"
  using assms
  by (cases "fetchFirstPlatform creds repository (listPlatforms m) net")
     (simp add: multiPlatformInfo_def Let_def cfg_field_def or_null_def or_str_def truthy_str_def)

lemma example_getManifest:
  "fst (getManifest (Some example_credentials) ''app'' ''latest'' example_network)
     = Inr example_single_manifest"
  "fst (getManifest (Some example_credentials) ''multi'' ''latest'' example_network)
     = Inr example_list_manifest"
  "fst (getManifest (Some example_credentials) ''attested'' ''latest'' example_network)
     = Inr example_attested_list"
  "fst (getManifest (Some example_credentials) ''blobless'' ''latest'' example_network)
     = Inr example_list_manifest"
  by (simp_all add: getManifest_def enqueueRequest_await_def request_def configured_def truthy_str_def
        example_credentials_def example_network_def)

lemma example_list_is_list: "truthy (isManifestList example_list_manifest)"
  by (simp add: isManifestList_def example_list_manifest_def listMediaTypes_def)

lemma example_listPlatforms:
  "listPlatforms example_list_manifest =
      \<lparr>pd_os = Some ''linux'', pd_architecture = Some ''amd64'', pd_variant = None,
       pd_digest = Some ''sha256:m1'', pd_size = Some 100\<rparr> #
      [\<lparr>pd_os = Some ''linux'', pd_architecture = Some ''arm64'', pd_variant = None,
        pd_digest = Some ''sha256:m2'', pd_size = Some 150\<rparr>]"
  by (simp add: listPlatforms_def example_list_manifest_def map_filter_simps
        platformDescriptor_def example_platform_def or_null_def or_str_def truthy_str_def)

subsection \<open>Total size and shape of the resolved image info\<close>

text \<open>
  Claim C1. Whenever the manifest fetched for the tag is not classified as a manifest list,
  \<open>getImageInfo\<close> returns an image info whose \<open>totalSize\<close> is the sum of the layer sizes
  (a layer without a size counts 0, no \<open>layers\<close> array counts 0) plus the declared size of
  the config object when there is one, and whose \<open>isMultiPlatform\<close> is false. This holds
  whatever the best-effort fetch of the config blob does. The sizes are taken to add up,
  in absolute value, to at most \<open>2^53 = 9007199254740992\<close>, the range in which the
  additions of the code are exact.
\<close>

theorem getImageInfo_single_platform:
  assumes "fst (getManifest creds repository tag net) = Inr m"
    and "\<not> truthy (isManifestList m)"
    and "sum_list (map (\<lambda>l. \<bar>case l_size l of None \<Rightarrow> 0 | Some n \<Rightarrow> n\<bar>)
                       (case layers m of None \<Rightarrow> [] | Some ls \<Rightarrow> ls))
         + \<bar>case config m of None \<Rightarrow> 0
            | Some c \<Rightarrow> (case c_size c of None \<Rightarrow> 0 | Some n \<Rightarrow> n)\<bar>
         \<le> 9007199254740992"
  shows "\<exists>info. fst (getImageInfo creds repository tag net) = Inr info \<and>
           totalSize info =
             Num (sum_list (map (\<lambda>l. case l_size l of None \<Rightarrow> 0 | Some n \<Rightarrow> n)
                                (case layers m of None \<Rightarrow> [] | Some ls \<Rightarrow> ls))
                  + (case config m of None \<Rightarrow> 0
                     | Some c \<Rightarrow> (case c_size c of None \<Rightarrow> 0 | Some n \<Rightarrow> n))) \<and>
           isMultiPlatform info = False"
  using getImageInfo_single [OF assms(1,2)] singleTotalSize_eq [OF assms(3)]
  by (simp add: singlePlatformInfo_fields)

text \<open>The instance of the claim: layers of sizes 10, 20, 30 and a config of size 5 give 65.\<close>

theorem getImageInfo_single_platform_witness:
  "\<exists>info. fst (getImageInfo (Some example_credentials) ''app'' ''latest'' example_network) = Inr info
      \<and> totalSize info = Num 65 \<and> isMultiPlatform info = False"
proof -
  have cls: "\<not> truthy (isManifestList example_single_manifest)"
    by (simp add: isManifestList_def example_single_manifest_def listMediaTypes_def)
  have bound:
    "sum_list (map (\<lambda>l. \<bar>case l_size l of None \<Rightarrow> 0 | Some n \<Rightarrow> n\<bar>)
                   (case layers example_single_manifest of None \<Rightarrow> [] | Some ls \<Rightarrow> ls))
     + \<bar>case config example_single_manifest of None \<Rightarrow> 0
        | Some c \<Rightarrow> (case c_size c of None \<Rightarrow> 0 | Some n \<Rightarrow> n)\<bar>
     \<le> 9007199254740992"
    by (simp add: example_single_manifest_def)
  show ?thesis
    using getImageInfo_single_platform [OF example_getManifest(1) cls bound]
    by (simp add: example_single_manifest_def)
qed

text \<open>
  Claim C2. Whenever the manifest fetched for the tag is classified as a manifest list,
  \<open>getImageInfo\<close> returns an image info with \<open>isMultiPlatform\<close> true, with \<open>totalSize\<close> the
  sum of the \<open>size\<close> fields of the entries of the list, and with one platform descriptor,
  in order, for each entry that carries a \<open>platform\<close> field (the descriptor has that entry's
  digest and size). The sizes are taken to add up, in absolute value, to at most
  \<open>2^53 = 9007199254740992\<close>, the range in which the additions of the code are exact.
\<close>

theorem getImageInfo_manifest_list:
  assumes "fst (getManifest creds repository tag net) = Inr m"
    and "truthy (isManifestList m)"
    and "sum_list (map (\<lambda>e. \<bar>case e_size e of None \<Rightarrow> 0 | Some n \<Rightarrow> n\<bar>)
                       (case manifests m of None \<Rightarrow> [] | Some ms \<Rightarrow> ms))
         \<le> 9007199254740992"
  shows "\<exists>info. fst (getImageInfo creds repository tag net) = Inr info \<and>
           isMultiPlatform info = True \<and>
           totalSize info =
             Num (sum_list (map (\<lambda>e. case e_size e of None \<Rightarrow> 0 | Some n \<Rightarrow> n)
                                (case manifests m of None \<Rightarrow> [] | Some ms \<Rightarrow> ms))) \<and>
           length (platforms info) =
             length (filter (\<lambda>e. e_platform e \<noteq> None)
                            (case manifests m of None \<Rightarrow> [] | Some ms \<Rightarrow> ms)) \<and>
           map (\<lambda>d. (pd_digest d, pd_size d)) (platforms info) =
             map (\<lambda>e. (e_digest e, e_size e))
                 (filter (\<lambda>e. e_platform e \<noteq> None)
                         (case manifests m of None \<Rightarrow> [] | Some ms \<Rightarrow> ms))"
  using getImageInfo_multi [OF assms(1,2)] listTotalSize_eq [OF assms(3)]
  by (simp add: multiPlatformInfo_fields listPlatforms_digests listPlatforms_length)

text \<open>The instance of the claim: two platform entries of sizes 100 and 150.\<close>

theorem getImageInfo_manifest_list_witness:
  "\<exists>info. fst (getImageInfo (Some example_credentials) ''multi'' ''latest'' example_network) = Inr info
      \<and> isMultiPlatform info = True \<and> totalSize info = Num 250
      \<and> length (platforms info) = 2"
proof -
  have bound:
    "sum_list (map (\<lambda>e. \<bar>case e_size e of None \<Rightarrow> 0 | Some n \<Rightarrow> n\<bar>)
                   (case manifests example_list_manifest of None \<Rightarrow> [] | Some ms \<Rightarrow> ms))
     \<le> 9007199254740992"
    by (simp add: example_list_manifest_def)
  show ?thesis
    using getImageInfo_manifest_list [OF example_getManifest(2) example_list_is_list bound]
    by (auto simp: example_list_manifest_def)
qed

text \<open>
  Claim C10. For a manifest list, \<open>platforms\<close> holds exactly the descriptors of the entries
  that carry a \<open>platform\<close> field, in their order (os, architecture and variant of that
  platform, digest and size of that entry); an entry without a \<open>platform\<close> field gets no
  descriptor. Yet its size is part of \<open>totalSize\<close>: \<open>totalSize\<close> is the sum over the
  entries with a platform plus the sum over the entries without one (a missing size
  counting 0). The sizes are taken to add up, in absolute value, to at most
  \<open>2^53 = 9007199254740992\<close>, the range in which the additions of the code are exact.
\<close>

theorem manifest_list_totalSize_counts_every_entry:
  assumes "fst (getManifest creds repository tag net) = Inr m"
    and "truthy (isManifestList m)"
    and "es = (case manifests m of None \<Rightarrow> [] | Some ms \<Rightarrow> ms)"
    and "sum_list (map (\<lambda>e. \<bar>case e_size e of None \<Rightarrow> 0 | Some n \<Rightarrow> n\<bar>) es)
         \<le> 9007199254740992"
  shows "\<exists>info. fst (getImageInfo creds repository tag net) = Inr info \<and>
           platforms info =
             map (\<lambda>e. \<lparr>pd_os = p_os (the (e_platform e)),
                       pd_architecture = p_architecture (the (e_platform e)),
                       pd_variant = or_null (p_variant (the (e_platform e))),
                       pd_digest = e_digest e, pd_size = e_size e\<rparr>)
                 (filter (\<lambda>e. e_platform e \<noteq> None) es) \<and>
           length (platforms info) = length (filter (\<lambda>e. e_platform e \<noteq> None) es) \<and>
           totalSize info =
             Num (sum_list (map (\<lambda>e. case e_size e of None \<Rightarrow> 0 | Some n \<Rightarrow> n)
                                (filter (\<lambda>e. e_platform e \<noteq> None) es))
                  + sum_list (map (\<lambda>e. case e_size e of None \<Rightarrow> 0 | Some n \<Rightarrow> n)
                                  (filter (\<lambda>e. e_platform e = None) es)))"
proof -
  have split:
    "sum_list (map (\<lambda>e. case e_size e of None \<Rightarrow> 0 | Some n \<Rightarrow> n)
                   (filter (\<lambda>e. e_platform e \<noteq> None) es))
       + sum_list (map (\<lambda>e. case e_size e of None \<Rightarrow> 0 | Some n \<Rightarrow> n)
                       (filter (\<lambda>e. e_platform e = None) es))
     = sum_list (map (\<lambda>e. case e_size e of None \<Rightarrow> 0 | Some n \<Rightarrow> n) es)"
    using sum_list_filter_split [of _ "\<lambda>e. e_platform e \<noteq> None" es] by simp
  have bound: "sum_list (map (\<lambda>e. \<bar>case e_size e of None \<Rightarrow> 0 | Some n \<Rightarrow> n\<bar>)
                             (case manifests m of None \<Rightarrow> [] | Some ms \<Rightarrow> ms))
                 \<le> 9007199254740992"
    using assms(3,4) by simp
  show ?thesis
    unfolding split
    using getImageInfo_multi [OF assms(1,2)] listPlatforms_length [of m] listPlatforms_map [of m]
      listTotalSize_eq [OF bound] assms(3)
    by (simp add: multiPlatformInfo_fields)
qed

theorem manifest_list_totalSize_counts_every_entry_witness:
  "\<exists>info. fst (getImageInfo (Some example_credentials) ''attested'' ''latest'' example_network)
             = Inr info
      \<and> platforms info =
            [\<lparr>pd_os = Some ''linux'', pd_architecture = Some ''amd64'', pd_variant = None,
              pd_digest = Some ''sha256:m1'', pd_size = Some 100\<rparr>]
      \<and> length (platforms info) = 1 \<and> totalSize info = Num (100 + 150)"
proof -
  have cls: "truthy (isManifestList example_attested_list)"
    by (simp add: isManifestList_def example_attested_list_def listMediaTypes_def)
  have bound:
    "sum_list (map (\<lambda>e. \<bar>case e_size e of None \<Rightarrow> 0 | Some n \<Rightarrow> n\<bar>)
                   (case manifests example_attested_list of None \<Rightarrow> [] | Some ms \<Rightarrow> ms))
     \<le> 9007199254740992"
    by (simp add: example_attested_list_def)
  show ?thesis
    using manifest_list_totalSize_counts_every_entry [OF example_getManifest(3) cls refl bound]
    by (simp add: example_attested_list_def example_platform_def or_null_def or_str_def
          truthy_str_def)
qed

subsection \<open>Best-effort sub-fetches\<close>

text \<open>
  Claim C3. For a manifest list with at least one platform, when the fetch of the first
  platform's manifest fails, or that manifest names a config digest and the fetch of the
  config blob fails, \<open>getImageInfo\<close> still returns an image info (it does not fail), and in
  it \<open>created\<close>, \<open>author\<close>, \<open>dockerVersion\<close>, \<open>config\<close> and \<open>firstManifest\<close> are null.
  (\<open>architecture\<close> and \<open>os\<close> are taken from the first platform descriptor and are not
  affected.)
\<close>

theorem getImageInfo_subfetch_failure:
  assumes "fst (getManifest creds repository tag net) = Inr m"
    and "truthy (isManifestList m)"
    and "listPlatforms m = p # ps"
    and "firstDigest = (case pd_digest p of None \<Rightarrow> ''undefined'' | Some d \<Rightarrow> d)"
    and "platformManifestOf net repository firstDigest = Inl e \<or>
         (\<exists>pm c d. platformManifestOf net repository firstDigest = Inr pm \<and>
                    config pm = Some c \<and> c_digest c = Some d \<and> d \<noteq> [] \<and>
                    blobOf net repository d = Inl e)"
  shows "\<exists>info. fst (getImageInfo creds repository tag net) = Inr info \<and>
           created info = None \<and> author info = None \<and> dockerVersion info = None \<and>
           info_config info = None \<and> firstManifest info = None"
proof -
  let ?net1 = "snd (getManifest creds repository tag net)"
  have net1: "platformManifestOf ?net1 = platformManifestOf net" "blobOf ?net1 = blobOf net"
    by (simp_all add: getManifest_def enqueueRequest_await_def)
  have conf: "configured creds"
    using assms(1) by (rule getManifest_ok_configured)
  have "fst (fetchFirstPlatform creds repository (p # ps) ?net1) = (None, None)"
    using assms(5)
  proof
    assume "platformManifestOf net repository firstDigest = Inl e"
    then show ?thesis
      using conf assms(4) net1 by (simp add: fetchFirstPlatform_manifest_fails)
  next
    assume "\<exists>pm c d. platformManifestOf net repository firstDigest = Inr pm \<and>
                    config pm = Some c \<and> c_digest c = Some d \<and> d \<noteq> [] \<and>
                    blobOf net repository d = Inl e"
    then obtain pm c d where
      "platformManifestOf net repository firstDigest = Inr pm" "config pm = Some c"
      "c_digest c = Some d" "d \<noteq> []" "blobOf net repository d = Inl e"
      by blast
    then show ?thesis
      using conf assms(4) net1
        fetchFirstPlatform_blob_fails [of creds ?net1 repository p pm c d e ps]
      by simp
  qed
  then have "fst (fetchFirstPlatform creds repository (listPlatforms m) ?net1) = (None, None)"
    using assms(3) by simp
  from multiPlatformInfo_degraded [OF this] getImageInfo_multi [OF assms(1,2)]
  show ?thesis by simp
qed

text \<open>Both ways of failing: in \<open>multi\<close> the platform manifest cannot be fetched, in
  \<open>blobless\<close> it can but its config blob cannot.\<close>

theorem getImageInfo_subfetch_failure_witness:
  "(\<exists>info. fst (getImageInfo (Some example_credentials) ''multi'' ''latest'' example_network)
              = Inr info
      \<and> created info = None \<and> author info = None \<and> dockerVersion info = None
      \<and> info_config info = None \<and> firstManifest info = None) \<and>
   (\<exists>info. fst (getImageInfo (Some example_credentials) ''blobless'' ''latest'' example_network)
              = Inr info
      \<and> created info = None \<and> author info = None \<and> dockerVersion info = None
      \<and> info_config info = None \<and> firstManifest info = None)"
proof -
  have f1: "platformManifestOf example_network ''multi'' ''sha256:m1''
              = Inl (Error ''Resource not found'') \<or>
         (\<exists>pm c d. platformManifestOf example_network ''multi'' ''sha256:m1'' = Inr pm \<and>
                    config pm = Some c \<and> c_digest c = Some d \<and> d \<noteq> [] \<and>
                    blobOf example_network ''multi'' d = Inl (Error ''Resource not found''))"
    by (simp add: example_network_def)
  have f2: "platformManifestOf example_network ''blobless'' ''sha256:m1''
              = Inl (Error ''Resource not found'') \<or>
         (\<exists>pm c d. platformManifestOf example_network ''blobless'' ''sha256:m1'' = Inr pm \<and>
                    config pm = Some c \<and> c_digest c = Some d \<and> d \<noteq> [] \<and>
                    blobOf example_network ''blobless'' d = Inl (Error ''Resource not found''))"
    by (simp add: example_network_def example_single_manifest_def)
  show ?thesis
    using getImageInfo_subfetch_failure
            [OF example_getManifest(2) example_list_is_list example_listPlatforms _ f1]
          getImageInfo_subfetch_failure
            [OF example_getManifest(4) example_list_is_list example_listPlatforms _ f2]
    by simp
qed

subsection \<open>Classification of manifests\<close>

text \<open>
  Claim C4, as the code has it. \<open>isManifestList\<close> returns \<open>true\<close> when the media type is
  one of the two list/index types, and \<open>true\<close> when there is a \<open>manifests\<close> array and no
  \<open>layers\<close> array. For a manifest with a \<open>layers\<close> array it returns a falsy value
  (\<open>false\<close>, or \<open>undefined\<close> when there is no \<open>manifests\<close> field) provided the media
  type is not one of the two list/index types.
\<close>

theorem isManifestList_classification:
  "(\<forall>t. mediaType m = Some t \<and> t \<in> set listMediaTypes \<longrightarrow> isManifestList m = Bool True) \<and>
   (manifests m \<noteq> None \<and> layers m = None \<longrightarrow> isManifestList m = Bool True) \<and>
   (layers m \<noteq> None \<and> (\<forall>t. mediaType m = Some t \<longrightarrow> t \<notin> set listMediaTypes)
      \<longrightarrow> \<not> truthy (isManifestList m) \<and>
          isManifestList m = (if manifests m = None then Undefined else Bool False)) \<and>
   set listMediaTypes = {''application/vnd.docker.distribution.manifest.list.v2+json'',
                         ''application/vnd.oci.image.index.v1+json''}"
  by (auto simp: isManifestList_def listMediaTypes_def split: option.splits)

theorem isManifestList_classification_witness:
  "isManifestList example_list_manifest = Bool True \<and>
   isManifestList example_attested_list = Bool True \<and>
   \<not> truthy (isManifestList example_single_manifest)"
  using isManifestList_classification [of example_list_manifest]
        isManifestList_classification [of example_attested_list]
        isManifestList_classification [of example_single_manifest]
  by (simp add: example_list_manifest_def example_attested_list_def example_single_manifest_def
        listMediaTypes_def)

text \<open>The claim as written fails where its first and third parts overlap: a manifest that
  has a \<open>layers\<close> array and an index media type is classified as a list. And for the usual
  single-platform manifest (layers, no \<open>manifests\<close> field) the value returned is
  \<open>undefined\<close>, which is falsy but is not \<open>false\<close>.\<close>

theorem isManifestList_layers_counterexample:
  "layers \<lparr>mediaType = Some ''application/vnd.oci.image.index.v1+json'', layers = Some [],
            config = None, manifests = None\<rparr> \<noteq> None \<and>
   isManifestList \<lparr>mediaType = Some ''application/vnd.oci.image.index.v1+json'',
                    layers = Some [], config = None, manifests = None\<rparr> = Bool True \<and>
   layers example_single_manifest \<noteq> None \<and>
   isManifestList example_single_manifest = Undefined \<and> Undefined \<noteq> Bool False"
  by (simp add: isManifestList_def listMediaTypes_def example_single_manifest_def)

section \<open>Properties of the request throttler\<close>

subsection \<open>Auxiliary facts\<close>

lemma run_snoc: "run (evs @ [e]) s = step e (run evs s)"
  by (simp add: run_def)

lemma run_Cons: "run (e # evs) s = run evs (step e s)"
  by (simp add: run_def)

lemma started_append: "started (tr @ tr') = started tr @ started tr'"
  by (induction tr rule: started.induct) simp_all

lemma enqueued_append: "enqueued (evs @ evs') = enqueued evs @ enqueued evs'"
  by (induction evs rule: enqueued.induct) simp_all

lemma delays_ok_append: "delays_ok (tr @ tr') = (delays_ok tr \<and> delays_ok tr')"
  by (induction tr rule: delays_ok.induct) simp_all

lemma throttler_inv_idle: "throttler_inv idle_throttler"
  by (simp add: throttler_inv_def idle_throttler_def ends_with_delay_def)

lemma phase_pc_cases:
  "phase_pc ph = Idle \<Longrightarrow> ph = Quiet \<or> ph = Completed"
  "phase_pc ph = AwaitTask t \<Longrightarrow> ph = Running t"
  "phase_pc ph = AwaitDelay \<Longrightarrow> ph = Waiting"
  by (cases ph; simp)+

lemma throttler_inv_step:
  assumes "throttler_inv s"
  shows "throttler_inv (step e s)"
proof -
  from assms obtain ph where
    ph: "foldl observe (Some Quiet) (trace s) = Some ph" "phase_pc ph = pc s"
    and rest: "isProcessing s = (pc s \<noteq> Idle)" "pc s = Idle \<longrightarrow> requestQueue s = []"
      "pc s = AwaitDelay \<longrightarrow> requestQueue s \<noteq> []" "delays_ok (trace s)"
      "ends_with_delay (trace s) = (pc s = AwaitDelay)"
    by (auto simp: throttler_inv_def)
  show ?thesis
  proof (cases e)
    case (Enqueue t)
    show ?thesis
    proof (cases "pc s")
      case Idle
      with ph(2) have "ph = Quiet \<or> ph = Completed" by (simp add: phase_pc_cases)
      with Idle Enqueue ph rest show ?thesis
        by (auto simp: throttler_inv_def enqueueRequest_def processQueue_def loop_head_def
              delays_ok_append ends_with_delay_def)
    next
      case (AwaitTask u)
      with Enqueue ph rest show ?thesis
        by (auto simp: throttler_inv_def enqueueRequest_def processQueue_def)
    next
      case AwaitDelay
      with Enqueue ph rest show ?thesis
        by (auto simp: throttler_inv_def enqueueRequest_def processQueue_def)
    qed
  next
    case (Settled r)
    show ?thesis
    proof (cases "pc s")
      case Idle
      with Settled assms show ?thesis by simp
    next
      case (AwaitTask u)
      with ph(2) have "ph = Running u" by (simp add: phase_pc_cases)
      with AwaitTask Settled ph rest show ?thesis
        by (cases r; cases "requestQueue s")
           (auto simp: throttler_inv_def after_task_def loop_head_def Let_def REQUEST_DELAY_def
              delays_ok_append ends_with_delay_def)
    next
      case AwaitDelay
      with Settled assms show ?thesis by simp
    qed
  next
    case DelayElapsed
    show ?thesis
    proof (cases "pc s")
      case Idle
      with DelayElapsed assms show ?thesis by simp
    next
      case (AwaitTask u)
      with DelayElapsed assms show ?thesis by simp
    next
      case AwaitDelay
      with ph(2) have "ph = Waiting" by (simp add: phase_pc_cases)
      with AwaitDelay DelayElapsed ph rest show ?thesis
        by (cases "requestQueue s")
           (auto simp: throttler_inv_def loop_head_def delays_ok_append ends_with_delay_def)
    qed
  qed
qed

lemma throttler_inv_run: "throttler_inv s \<Longrightarrow> throttler_inv (run evs s)"
  by (induction evs rule: rev_induct) (simp_all add: run_def throttler_inv_step)

lemma fifo_step:
  "started (trace (step e s)) @ requestQueue (step e s)
     = (started (trace s) @ requestQueue s) @ enqueued [e]"
proof (cases e)
  case (Enqueue t)
  then show ?thesis
    by (auto simp: enqueueRequest_def processQueue_def loop_head_def started_append
          split: list.splits)
next
  case (Settled r)
  then show ?thesis
    by (cases "pc s"; cases r; cases "requestQueue s")
       (auto simp: after_task_def loop_head_def Let_def started_append)
next
  case DelayElapsed
  then show ?thesis
    by (cases "pc s"; cases "requestQueue s") (auto simp: loop_head_def started_append)
qed

lemma fifo_run:
  "started (trace (run evs s)) @ requestQueue (run evs s)
     = (started (trace s) @ requestQueue s) @ enqueued evs"
proof (induction evs rule: rev_induct)
  case Nil
  show ?case by (simp add: run_def)
next
  case (snoc e evs)
  show ?case
    unfolding run_snoc fifo_step [of e "run evs s"] snoc enqueued_append by simp
qed

lemma control_step:
  assumes "control s = control s'" and "event_kind e = event_kind e'"
  shows "control (step e s) = control (step e' s')"
proof -
  from assms(1) have eqs:
    "requestQueue s' = requestQueue s" "isProcessing s' = isProcessing s" "pc s' = pc s"
    "map action_kind (trace s') = map action_kind (trace s)"
    by (simp_all add: control_def)
  show ?thesis
  proof (cases e)
    case (Enqueue t)
    with assms(2) have "e' = Enqueue t" by (cases e') simp_all
    with Enqueue eqs show ?thesis
      by (auto simp: control_def enqueueRequest_def processQueue_def loop_head_def
            split: list.splits)
  next
    case (Settled r)
    with assms(2) obtain r' where "e' = Settled r'" by (cases e') simp_all
    with Settled eqs show ?thesis
      by (cases "pc s"; cases r; cases r'; cases "requestQueue s")
         (simp_all add: control_def after_task_def loop_head_def Let_def)
  next
    case DelayElapsed
    with assms(2) have "e' = DelayElapsed" by (cases e') simp_all
    with DelayElapsed eqs show ?thesis
      by (cases "pc s"; cases "requestQueue s") (simp_all add: control_def loop_head_def)
  qed
qed

lemma control_run:
  assumes "map event_kind evs = map event_kind evs'" and "control s = control s'"
  shows "control (run evs s) = control (run evs' s')"
  using assms
proof (induction evs arbitrary: evs' s s')
  case Nil
  then show ?case by (simp add: run_def)
next
  case (Cons e evs)
  then obtain e' evs'' where evs': "evs' = e' # evs''" by (cases evs') auto
  with Cons.prems have "event_kind e = event_kind e'" "map event_kind evs = map event_kind evs''"
    by simp_all
  with Cons.IH [of evs'' "step e s" "step e' s'"] control_step [OF Cons.prems(2)] evs'
  show ?case by (simp add: run_Cons)
qed

lemma settle_step:
  "pc s = AwaitTask t \<Longrightarrow>
     trace (step (Settled r) s) =
       trace s @ [case r of Inr v \<Rightarrow> Resolved t v | Inl e \<Rightarrow> Rejected t e]
         @ (if requestQueue s = [] then [] else [Delay 100 (length (requestQueue s))])"
  by (cases "requestQueue s")
     (simp_all add: after_task_def loop_head_def Let_def REQUEST_DELAY_def)

lemma lone_caller_runs_at_once:
  assumes "pc s = Idle" "requestQueue s = []" "\<not> isProcessing s"
  shows "run [Enqueue t, Settled r] s =
           s\<lparr>trace := trace s @ [Started t,
                (case r of Inr v \<Rightarrow> Resolved t v | Inl e \<Rightarrow> Rejected t e)]\<rparr>"
  using assms
  by (simp add: run_def enqueueRequest_def processQueue_def loop_head_def after_task_def Let_def)

lemma burst_trace:
  "run burst_of_five idle_throttler =
     \<lparr>requestQueue = [], isProcessing = False, pc = Idle,
      trace = [Started 1, Resolved 1 ''a'', Delay 100 4,
               Started 2, Rejected 2 (Error ''Resource not found''), Delay 100 3,
               Started 3, Resolved 3 ''c'', Delay 100 2,
               Started 4, Resolved 4 ''d'', Delay 100 1,
               Started 5, Resolved 5 ''e'']\<rparr>"
  by code_simp

subsection \<open>Serial, first-in first-out execution\<close>

text \<open>
  Claim C5. Start the throttler idle, let any sequence of events happen (calls of
  \<open>enqueueRequest\<close>, awaited tasks settling with any outcome, timers expiring), and let
  \<open>st\<close> be the state reached. Then
  \<^item> tasks run one at a time, and the promise settled after a task is that task's own
    (\<open>one_at_a_time\<close>);
  \<^item> the tasks started so far, followed by the tasks still queued, are the submitted
    tasks in submission order;
  \<^item> \<open>isProcessing\<close> is set exactly while the driver loop is suspended on a task or on
    the timer, and when the loop is idle no task is waiting in the queue;
  \<^item> a task submitted while the loop is idle is started at once; a task submitted while
    a task is running or the timer is pending only joins the end of the queue: nothing is
    started, so no task starts while another runs or before the timer has expired;
  \<^item> every timer runs 100 ms and was started with at least one task queued; a timer at
    the end of the trace means the loop is waiting for it with tasks still queued, so no
    timer follows the last task, and when that timer expires the first queued task is
    started;
  \<^item> when the running task \<open>t\<close> settles (in any state \<open>s\<close>), exactly its own promise is
    resolved or rejected, and the timer is started exactly when the queue is not empty;
  \<^item> an event nobody waits for (a task settling while none runs, a timer expiring while
    none is pending) changes nothing;
  \<^item> changing the outcomes of the tasks (success or failure) changes nothing in what the
    throttler does apart from the values delivered: the same tasks are started in the same
    order with the same timers, so a failure does not stop the processing of the queue.
\<close>

theorem throttler_serial_fifo:
  assumes "st = run evs idle_throttler"
  shows
  "one_at_a_time (trace st) \<and>
   started (trace st) @ requestQueue st = enqueued evs \<and>
   isProcessing st = (pc st \<noteq> Idle) \<and>
   (pc st = Idle \<longrightarrow> requestQueue st = []) \<and>
   (pc st = Idle \<longrightarrow>
      trace (step (Enqueue u) st) = trace st @ [Started u] \<and>
      pc (step (Enqueue u) st) = AwaitTask u \<and>
      requestQueue (step (Enqueue u) st) = [] \<and>
      isProcessing (step (Enqueue u) st)) \<and>
   (pc st \<noteq> Idle \<longrightarrow>
      trace (step (Enqueue u) st) = trace st \<and>
      pc (step (Enqueue u) st) = pc st \<and>
      requestQueue (step (Enqueue u) st) = requestQueue st @ [u]) \<and>
   delays_ok (trace st) \<and>
   (ends_with_delay (trace st) \<longrightarrow>
      pc st = AwaitDelay \<and> requestQueue st \<noteq> [] \<and>
      trace (step DelayElapsed st) = trace st @ [Started (hd (requestQueue st))] \<and>
      requestQueue (step DelayElapsed st) = tl (requestQueue st)) \<and>
   (pc st = AwaitDelay \<longrightarrow> ends_with_delay (trace st)) \<and>
   (pc s = AwaitTask t \<longrightarrow>
      trace (step (Settled r) s) =
        trace s @ [case r of Inr v \<Rightarrow> Resolved t v | Inl e \<Rightarrow> Rejected t e]
          @ (if requestQueue s = [] then [] else [Delay 100 (length (requestQueue s))]) \<and>
      requestQueue (step (Settled r) s) = requestQueue s \<and>
      pc (step (Settled r) s) = (if requestQueue s = [] then Idle else AwaitDelay) \<and>
      isProcessing (step (Settled r) s) = (isProcessing s \<and> requestQueue s \<noteq> [])) \<and>
   ((\<forall>t. pc s \<noteq> AwaitTask t) \<longrightarrow> step (Settled r) s = s) \<and>
   (pc s \<noteq> AwaitDelay \<longrightarrow> step DelayElapsed s = s) \<and>
   (\<forall>evs' :: 'c event list. map event_kind evs' = map event_kind evs
      \<longrightarrow> control (run evs' idle_throttler) = control st)"
proof -
  have inv: "throttler_inv st"
    unfolding assms by (rule throttler_inv_run [OF throttler_inv_idle])
  then have flags: "isProcessing st = (pc st \<noteq> Idle)" "pc st = Idle \<longrightarrow> requestQueue st = []"
    "pc st = AwaitDelay \<longrightarrow> requestQueue st \<noteq> []" "delays_ok (trace st)"
    "ends_with_delay (trace st) = (pc st = AwaitDelay)"
    and serial: "one_at_a_time (trace st)"
    by (auto simp: throttler_inv_def one_at_a_time_def)
  have fifo: "started (trace st) @ requestQueue st = enqueued evs"
    unfolding assms using fifo_run [of evs idle_throttler] by (simp add: idle_throttler_def)
  have enq_idle: "pc st = Idle \<longrightarrow>
      trace (step (Enqueue u) st) = trace st @ [Started u] \<and>
      pc (step (Enqueue u) st) = AwaitTask u \<and>
      requestQueue (step (Enqueue u) st) = [] \<and>
      isProcessing (step (Enqueue u) st)"
    using flags(1,2) by (simp add: enqueueRequest_def processQueue_def loop_head_def)
  have enq_busy: "pc st \<noteq> Idle \<longrightarrow>
      trace (step (Enqueue u) st) = trace st \<and>
      pc (step (Enqueue u) st) = pc st \<and>
      requestQueue (step (Enqueue u) st) = requestQueue st @ [u]"
    using flags(1) by (simp add: enqueueRequest_def processQueue_def)
  have timer: "ends_with_delay (trace st) \<longrightarrow>
      pc st = AwaitDelay \<and> requestQueue st \<noteq> [] \<and>
      trace (step DelayElapsed st) = trace st @ [Started (hd (requestQueue st))] \<and>
      requestQueue (step DelayElapsed st) = tl (requestQueue st)"
    using flags(3,5) by (cases "requestQueue st") (auto simp: loop_head_def)
  have timer2: "pc st = AwaitDelay \<longrightarrow> ends_with_delay (trace st)"
    using flags(5) by simp
  have settle: "pc s = AwaitTask t \<longrightarrow>
      trace (step (Settled r) s) =
        trace s @ [case r of Inr v \<Rightarrow> Resolved t v | Inl e \<Rightarrow> Rejected t e]
          @ (if requestQueue s = [] then [] else [Delay 100 (length (requestQueue s))]) \<and>
      requestQueue (step (Settled r) s) = requestQueue s \<and>
      pc (step (Settled r) s) = (if requestQueue s = [] then Idle else AwaitDelay) \<and>
      isProcessing (step (Settled r) s) = (isProcessing s \<and> requestQueue s \<noteq> [])"
    by (cases "requestQueue s")
       (simp_all add: after_task_def loop_head_def Let_def REQUEST_DELAY_def)
  have stray1: "(\<forall>t. pc s \<noteq> AwaitTask t) \<longrightarrow> step (Settled r) s = s"
    by (cases "pc s") simp_all
  have stray2: "pc s \<noteq> AwaitDelay \<longrightarrow> step DelayElapsed s = s"
    by (cases "pc s") simp_all
  have indep: "\<forall>evs' :: 'c event list. map event_kind evs' = map event_kind evs
      \<longrightarrow> control (run evs' idle_throttler) = control st"
  proof (intro allI impI)
    fix evs' :: "'c event list"
    assume "map event_kind evs' = map event_kind evs"
    then show "control (run evs' idle_throttler) = control st"
      unfolding assms by (rule control_run) (simp add: control_def idle_throttler_def)
  qed
  show ?thesis
    by (intro conjI serial fifo flags(1) flags(2) enq_idle enq_busy flags(4) timer timer2
          settle stray1 stray2 indep)
qed

text \<open>Five tasks submitted in a burst, the second failing: they run in order 1 to 5,
  with four timers between them and none after the fifth; only task 2 is rejected.
  A sixth task submitted while the first timer is pending starts nothing. Tasks submitted
  one by one start at once, with no timer in between.\<close>

theorem throttler_serial_fifo_witness:
  "trace (run burst_of_five idle_throttler) =
      [Started 1, Resolved 1 ''a'', Delay 100 4,
       Started 2, Rejected 2 (Error ''Resource not found''), Delay 100 3,
       Started 3, Resolved 3 ''c'', Delay 100 2,
       Started 4, Resolved 4 ''d'', Delay 100 1,
       Started 5, Resolved 5 ''e''] \<and>
   one_at_a_time (trace (run burst_of_five idle_throttler)) \<and>
   started (trace (run burst_of_five idle_throttler)) = [1, 2, 3, 4, 5] \<and>
   rejected (trace (run burst_of_five idle_throttler)) = [2] \<and>
   \<not> ends_with_delay (trace (run burst_of_five idle_throttler)) \<and>
   \<not> isProcessing (run burst_of_five idle_throttler) \<and>
   requestQueue (run burst_of_five idle_throttler) = [] \<and>
   control (run burst_of_five_ok idle_throttler) = control (run burst_of_five idle_throttler) \<and>
   ends_with_delay (trace (run (take 6 burst_of_five) idle_throttler)) \<and>
   requestQueue (run (take 6 burst_of_five) idle_throttler) \<noteq> [] \<and>
   trace (step DelayElapsed (run (take 6 burst_of_five) idle_throttler)) =
     [Started 1, Resolved 1 ''a'', Delay 100 4, Started 2] \<and>
   trace (step (Enqueue 6) (run (take 6 burst_of_five) idle_throttler)) =
     [Started 1, Resolved 1 ''a'', Delay 100 4] \<and>
   requestQueue (step (Enqueue 6) (run (take 6 burst_of_five) idle_throttler)) =
     [2, 3, 4, 5, 6] \<and>
   trace (step (Settled (Inl (Error ''Resource not found'')))
            (run (take 7 burst_of_five) idle_throttler))
     = trace (run (take 7 burst_of_five) idle_throttler)
         @ [Rejected 2 (Error ''Resource not found''), Delay 100 3] \<and>
   trace (step (Enqueue 3) (run one_by_one idle_throttler)) =
     [Started 1, Resolved 1 ''a'', Started 2, Resolved 2 ''b'', Started 3] \<and>
   step (Settled (Inr ''x'')) (run one_by_one idle_throttler) = run one_by_one idle_throttler \<and>
   step DelayElapsed (run one_by_one idle_throttler) = run one_by_one idle_throttler"
proof -
  let ?s5 = "run burst_of_five idle_throttler"
  let ?s6 = "run (take 6 burst_of_five) idle_throttler"
  let ?s7 = "run (take 7 burst_of_five) idle_throttler"
  let ?s1 = "run one_by_one idle_throttler"
  let ?r = "Inl (Error ''Resource not found'') :: error + string"
  have kinds: "map event_kind burst_of_five_ok = map event_kind burst_of_five"
    by (simp add: burst_of_five_def burst_of_five_ok_def)
  have five: "?s5 =
     \<lparr>requestQueue = [], isProcessing = False, pc = Idle,
      trace = [Started 1, Resolved 1 ''a'', Delay 100 4,
               Started 2, Rejected 2 (Error ''Resource not found''), Delay 100 3,
               Started 3, Resolved 3 ''c'', Delay 100 2,
               Started 4, Resolved 4 ''d'', Delay 100 1,
               Started 5, Resolved 5 ''e'']\<rparr>"
    by (rule burst_trace)
  have six: "?s6 =
     \<lparr>requestQueue = [2, 3, 4, 5], isProcessing = True, pc = AwaitDelay,
      trace = [Started 1, Resolved 1 ''a'', Delay 100 4]\<rparr>"
    by code_simp
  have seven: "?s7 =
     \<lparr>requestQueue = [3, 4, 5], isProcessing = True, pc = AwaitTask 2,
      trace = [Started 1, Resolved 1 ''a'', Delay 100 4, Started 2]\<rparr>"
    by code_simp
  have one: "?s1 =
     \<lparr>requestQueue = [], isProcessing = False, pc = Idle,
      trace = [Started 1, Resolved 1 ''a'', Started 2, Resolved 2 ''b'']\<rparr>"
    by code_simp
  note all = throttler_serial_fifo
    [where st = ?s5 and evs = burst_of_five and s = ?s7 and t = 2 and r = ?r and u = 6, OF refl]
  note part = throttler_serial_fifo
    [where st = ?s6 and evs = "take 6 burst_of_five" and s = ?s1 and r = "Inr ''x''" and u = 6,
     OF refl]
  note solo = throttler_serial_fifo
    [where st = ?s1 and evs = one_by_one and s = ?s1 and u = 3, OF refl]
  have tr: "trace ?s5 =
      [Started 1, Resolved 1 ''a'', Delay 100 4,
       Started 2, Rejected 2 (Error ''Resource not found''), Delay 100 3,
       Started 3, Resolved 3 ''c'', Delay 100 2,
       Started 4, Resolved 4 ''d'', Delay 100 1,
       Started 5, Resolved 5 ''e'']"
    by (simp add: five)
  have serial: "one_at_a_time (trace ?s5)"
    by (rule all [THEN conjunct1])
  have st: "started (trace ?s5) = [1, 2, 3, 4, 5]"
    by (simp add: tr)
  have rj: "rejected (trace ?s5) = [2]"
    by (simp add: tr)
  have nd: "\<not> ends_with_delay (trace ?s5)"
    by (simp add: tr ends_with_delay_def)
  have pc5: "pc ?s5 = Idle"
    by (simp add: five)
  have np: "\<not> isProcessing ?s5"
    using all [THEN conjunct2, THEN conjunct2, THEN conjunct1] pc5 by simp
  have q5: "requestQueue ?s5 = []"
    using all [THEN conjunct2, THEN conjunct2, THEN conjunct2, THEN conjunct1] pc5 by simp
  have same: "control (run burst_of_five_ok idle_throttler) = control ?s5"
    using all [THEN conjunct2, THEN conjunct2, THEN conjunct2, THEN conjunct2, THEN conjunct2,
                 THEN conjunct2, THEN conjunct2, THEN conjunct2, THEN conjunct2, THEN conjunct2,
                 THEN conjunct2, THEN conjunct2, THEN spec, THEN mp, OF kinds] .
  have pc7: "pc ?s7 = AwaitTask 2"
    by (simp add: seven)
  have rej: "trace (step (Settled ?r) ?s7) =
      trace ?s7 @ [Rejected 2 (Error ''Resource not found''), Delay 100 3]"
    using all [THEN conjunct2, THEN conjunct2, THEN conjunct2, THEN conjunct2, THEN conjunct2,
                 THEN conjunct2, THEN conjunct2, THEN conjunct2, THEN conjunct2, THEN conjunct1,
                 THEN mp, OF pc7, THEN conjunct1]
    by (simp add: seven)
  have pc6: "pc ?s6 = AwaitDelay" "pc ?s6 \<noteq> Idle"
    by (simp_all add: six)
  have ewd: "ends_with_delay (trace ?s6)"
    using part [THEN conjunct2, THEN conjunct2, THEN conjunct2, THEN conjunct2, THEN conjunct2,
                  THEN conjunct2, THEN conjunct2, THEN conjunct2, THEN conjunct1, THEN mp,
                  OF pc6(1)] .
  note timer = part [THEN conjunct2, THEN conjunct2, THEN conjunct2, THEN conjunct2,
                  THEN conjunct2, THEN conjunct2, THEN conjunct2, THEN conjunct1, THEN mp, OF ewd]
  have more: "requestQueue ?s6 \<noteq> []"
    using timer by simp
  have next_task: "trace (step DelayElapsed ?s6) =
      [Started 1, Resolved 1 ''a'', Delay 100 4, Started 2]"
    using timer by (simp add: six)
  note busy = part [THEN conjunct2, THEN conjunct2, THEN conjunct2, THEN conjunct2,
                  THEN conjunct2, THEN conjunct1, THEN mp, OF pc6(2)]
  have busy_trace: "trace (step (Enqueue 6) ?s6) = [Started 1, Resolved 1 ''a'', Delay 100 4]"
    using busy by (simp add: six)
  have busy_queue: "requestQueue (step (Enqueue 6) ?s6) = [2, 3, 4, 5, 6]"
    using busy by (simp add: six)
  have pc1: "pc ?s1 = Idle" "\<forall>t. pc ?s1 \<noteq> AwaitTask t" "pc ?s1 \<noteq> AwaitDelay"
    by (simp_all add: one)
  have at_once: "trace (step (Enqueue 3) ?s1) =
      [Started 1, Resolved 1 ''a'', Started 2, Resolved 2 ''b'', Started 3]"
    using solo [THEN conjunct2, THEN conjunct2, THEN conjunct2, THEN conjunct2, THEN conjunct1,
                  THEN mp, OF pc1(1)]
    by (simp add: one)
  have stray1: "step (Settled (Inr ''x'')) ?s1 = ?s1"
    using part [THEN conjunct2, THEN conjunct2, THEN conjunct2, THEN conjunct2, THEN conjunct2,
                  THEN conjunct2, THEN conjunct2, THEN conjunct2, THEN conjunct2, THEN conjunct2,
                  THEN conjunct1, THEN mp, OF pc1(2)] .
  have stray2: "step DelayElapsed ?s1 = ?s1"
    using part [THEN conjunct2, THEN conjunct2, THEN conjunct2, THEN conjunct2, THEN conjunct2,
                  THEN conjunct2, THEN conjunct2, THEN conjunct2, THEN conjunct2, THEN conjunct2,
                  THEN conjunct2, THEN conjunct1, THEN mp, OF pc1(3)] .
  show ?thesis
    by (intro conjI tr serial st rj nd np q5 same ewd more next_task busy_trace busy_queue rej
          at_once stray1 stray2)
qed

section \<open>Properties of catalog pagination\<close>

lemma loop_full_page:
  assumes "configured creds"
    and "catalogPages net = Inr \<lparr>repositories = Some p\<rparr> # rest"
    and "length p = pageSize" and "List.last p \<noteq> []"
  shows "getAllRepositories_loop creds repos cursor net =
           getAllRepositories_loop creds (repos @ p) (List.last p)
             (net\<lparr>catalogPages := rest, calls := calls net @ [CatalogReq pageSize cursor]\<rparr>)"
  using assms
  by (subst getAllRepositories_loop.simps)
     (simp add: fetchPage_def getCatalog_def enqueueRequest_await_def nextCursor_def pageSize_def)

lemma loop_short_page:
  assumes "configured creds"
    and "catalogPages net = Inr \<lparr>repositories = Some p\<rparr> # rest"
    and "length p \<noteq> pageSize"
  shows "getAllRepositories_loop creds repos cursor net =
           Some (Inr (repos @ p),
                 net\<lparr>catalogPages := rest, calls := calls net @ [CatalogReq pageSize cursor]\<rparr>)"
  using assms
  by (subst getAllRepositories_loop.simps)
     (simp add: fetchPage_def getCatalog_def enqueueRequest_await_def nextCursor_def)

lemma loop_pages:
  assumes "configured creds"
    and "catalogPages net =
           map (\<lambda>p. Inr \<lparr>repositories = Some p\<rparr>) full @ Inr \<lparr>repositories = Some final\<rparr> # rest"
    and "\<forall>p \<in> set full. length p = pageSize \<and> List.last p \<noteq> []"
    and "length final \<noteq> pageSize"
  shows "getAllRepositories_loop creds repos cursor net =
           Some (Inr (repos @ concat full @ final),
                 net\<lparr>catalogPages := rest,
                     calls := calls net @ map (CatalogReq pageSize) (cursor # map List.last full)\<rparr>)"
  using assms
proof (induction full arbitrary: repos cursor net)
  case Nil
  then show ?case using loop_short_page [of creds net final rest repos cursor] by simp
next
  case (Cons p full)
  let ?net1 = "net\<lparr>catalogPages :=
                      map (\<lambda>p. Inr \<lparr>repositories = Some p\<rparr>) full
                        @ Inr \<lparr>repositories = Some final\<rparr> # rest,
                    calls := calls net @ [CatalogReq pageSize cursor]\<rparr>"
  have step: "getAllRepositories_loop creds repos cursor net =
                getAllRepositories_loop creds (repos @ p) (List.last p) ?net1"
    using Cons.prems by (intro loop_full_page) simp_all
  have "getAllRepositories_loop creds (repos @ p) (List.last p) ?net1 =
          Some (Inr ((repos @ p) @ concat full @ final),
                ?net1\<lparr>catalogPages := rest,
                       calls := calls ?net1 @ map (CatalogReq pageSize) (List.last p # map List.last full)\<rparr>)"
    using Cons.prems by (intro Cons.IH) simp_all
  with step show ?case by simp
qed

text \<open>A full page whose last name is the empty string also ends the loop, because that
  name is the cursor tested by \<open>while (last)\<close>; registry repository names are never
  empty.\<close>

lemma getAllRepositories_loop_empty_cursor:
  assumes "configured creds"
    and "catalogPages net = Inr \<lparr>repositories = Some p\<rparr> # rest"
    and "p \<noteq> []" and "List.last p = []"
  shows "getAllRepositories_loop creds repos cursor net =
           Some (Inr (repos @ p),
                 net\<lparr>catalogPages := rest, calls := calls net @ [CatalogReq pageSize cursor]\<rparr>)"
  using assms
  by (subst getAllRepositories_loop.simps)
     (simp add: fetchPage_def getCatalog_def enqueueRequest_await_def nextCursor_def)

text \<open>
  Claim C6. With a registry URL configured, let the catalog answer with any number of
  full pages (each of exactly \<open>pageSize\<close> = 100 names, ending with a non-empty repository
  name) followed by a page whose number of names is not \<open>pageSize\<close>. Then
  \<open>getAllRepositories\<close> returns, and its result is the names of these pages concatenated
  in order; it stops at that page (the responses after it are left unrequested), and it
  has passed exactly one request per page through the throttler, each carrying as cursor
  the last name of the page before.
\<close>

theorem getAllRepositories_pagination:
  assumes "configured creds"
    and "catalogPages net =
           map (\<lambda>p. Inr \<lparr>repositories = Some p\<rparr>) full @ Inr \<lparr>repositories = Some final\<rparr> # rest"
    and "\<forall>p \<in> set full. length p = pageSize \<and> List.last p \<noteq> []"
    and "length final \<noteq> pageSize"
  shows "getAllRepositories creds net =
           Some (Inr (concat full @ final),
                 net\<lparr>catalogPages := rest,
                     calls := calls net @ map (CatalogReq pageSize) ([] # map List.last full)\<rparr>)"
  unfolding getAllRepositories_def using loop_pages [OF assms, of "[]" "[]"] by simp

text \<open>The instance of the claim: pages of sizes 100, 100 and 37 give 237 names in page
  order with exactly 3 throttled calls.\<close>

theorem getAllRepositories_pagination_witness:
  "getAllRepositories (Some example_credentials) (example_network\<lparr>catalogPages := example_pages\<rparr>) =
     Some (Inr (replicate 100 ''alpha'' @ replicate 100 ''beta'' @ replicate 37 ''gamma''),
           example_network\<lparr>catalogPages := [],
             calls := [CatalogReq 100 [], CatalogReq 100 ''alpha'', CatalogReq 100 ''beta'']\<rparr>) \<and>
   length (replicate 100 ''alpha'' @ replicate 100 ''beta'' @ replicate 37 ''gamma'') = 237 \<and>
   length [CatalogReq 100 [], CatalogReq 100 ''alpha'', CatalogReq 100 ''beta''] = 3"
proof -
  have c: "configured (Some example_credentials)"
    by (simp add: configured_def example_credentials_def truthy_str_def)
  have p: "catalogPages (example_network\<lparr>catalogPages := example_pages\<rparr>) =
             map (\<lambda>p. Inr \<lparr>repositories = Some p\<rparr>) [replicate 100 ''alpha'', replicate 100 ''beta'']
               @ Inr \<lparr>repositories = Some (replicate 37 ''gamma'')\<rparr> # []"
    by (simp add: example_pages_def)
  have f: "\<forall>p \<in> set [replicate 100 ''alpha'', replicate 100 ''beta''].
             length p = pageSize \<and> List.last p \<noteq> []"
    by (simp add: pageSize_def)
  have s: "length (replicate 37 ''gamma'') \<noteq> pageSize"
    by (simp add: pageSize_def)
  show ?thesis
    using getAllRepositories_pagination [OF c p f s]
    by (simp add: pageSize_def example_network_def)
qed

section \<open>Properties of the cache store\<close>

lemma tags_roundtrip:
  assumes "\<not> quotaExceeded ls"
  shows "imageCache_getTags repository now' (imageCache_saveTags repository v now ls) =
           (if now' - now > CACHE_TTL
            then (None, removeItem (getKey TAGS repository) (imageCache_saveTags repository v now ls))
            else (Some v, imageCache_saveTags repository v now ls))"
  using assms
  by (simp add: imageCache_getTags_def imageCache_saveTags_def imageCache_clearTags_def
        setItem_def getItem_def)

lemma imageInfo_roundtrip:
  assumes "\<not> quotaExceeded ls"
  shows "imageCache_getImageInfo repository tag now' (imageCache_saveImageInfo repository tag v now ls) =
           (if now' - now > CACHE_TTL
            then (None, removeItem (getKey IMAGE_INFO (repository @ '':'' @ tag))
                          (imageCache_saveImageInfo repository tag v now ls))
            else (Some v, imageCache_saveImageInfo repository tag v now ls))"
  using assms
  by (simp add: imageCache_getImageInfo_def imageCache_saveImageInfo_def
        imageCache_clearImageInfo_def setItem_def getItem_def)

lemma repositories_roundtrip:
  assumes "\<not> quotaExceeded ls"
  shows "imageCache_getRepositories now' (imageCache_saveRepositories v now ls) =
           (if now' - now > CACHE_TTL
            then (None, removeItem (getKey REPOSITORIES ''list'') (imageCache_saveRepositories v now ls))
            else (Some v, imageCache_saveRepositories v now ls))"
  using assms
  by (simp add: imageCache_getRepositories_def imageCache_saveRepositories_def
        imageCache_clearRepositories_def setItem_def getItem_def)

lemma removeItem_items: "items (removeItem k ls) k = None"
  by (simp add: removeItem_def)

lemma tags_stale:
  assumes "items ls (getKey TAGS repository) = Some (Doc v timestamp)"
  shows "imageCache_getTags repository now ls =
           (if now - timestamp > CACHE_TTL then (None, removeItem (getKey TAGS repository) ls)
            else (Some v, ls))"
  using assms by (simp add: imageCache_getTags_def imageCache_clearTags_def getItem_def)

lemma imageInfo_stale:
  assumes "items ls (getKey IMAGE_INFO (repository @ '':'' @ tag)) = Some (Doc v timestamp)"
  shows "imageCache_getImageInfo repository tag now ls =
           (if now - timestamp > CACHE_TTL
            then (None, removeItem (getKey IMAGE_INFO (repository @ '':'' @ tag)) ls)
            else (Some v, ls))"
  using assms
  by (simp add: imageCache_getImageInfo_def imageCache_clearImageInfo_def getItem_def)

lemma repositories_stale:
  assumes "items ls (getKey REPOSITORIES ''list'') = Some (Doc v timestamp)"
  shows "imageCache_getRepositories now ls =
           (if now - timestamp > CACHE_TTL
            then (None, removeItem (getKey REPOSITORIES ''list'') ls)
            else (Some v, ls))"
  using assms
  by (simp add: imageCache_getRepositories_def imageCache_clearRepositories_def getItem_def)

lemma saved_tags_item:
  "items saved_tags (getKey TAGS ''app'') = Some (Doc [''latest'', ''v1''] 1000)"
  by (simp add: saved_tags_def imageCache_saveTags_def setItem_def empty_storage_def)

text \<open>
  Claim C7. The TTL is 24 hours (86400000 ms). In each of the three namespaces (image info,
  tags, repositories), for every key and value, when storage accepts the write (otherwise
  \<open>save\<close> is a logged no-op):
  \<^item> \<open>save\<close> at time \<open>now\<close> followed by \<open>get\<close> at time \<open>now'\<close> returns the value as long as
    \<open>now' - now\<close> is not greater than the TTL, and returns null once it is.
  For every entry \<open>{value: w, timestamp}\<close> found in storage, however it got there:
  \<^item> once \<open>now' - timestamp > TTL\<close>, \<open>get\<close> returns null and the entry is gone from storage
    after the call;
  \<^item> otherwise \<open>get\<close> returns \<open>w\<close> and leaves storage as it is.
\<close>

theorem cache_roundtrip_ttl:
  "CACHE_TTL = 86400000 \<and>
   (\<not> quotaExceeded ls \<and> now' - now \<le> CACHE_TTL \<longrightarrow>
      fst (imageCache_getImageInfo repository tag now'
             (imageCache_saveImageInfo repository tag v now ls)) = Some v \<and>
      fst (imageCache_getTags repository now' (imageCache_saveTags repository v now ls)) = Some v \<and>
      fst (imageCache_getRepositories now' (imageCache_saveRepositories v now ls)) = Some v) \<and>
   (\<not> quotaExceeded ls \<and> now' - now > CACHE_TTL \<longrightarrow>
      fst (imageCache_getImageInfo repository tag now'
             (imageCache_saveImageInfo repository tag v now ls)) = None \<and>
      fst (imageCache_getTags repository now' (imageCache_saveTags repository v now ls)) = None \<and>
      fst (imageCache_getRepositories now' (imageCache_saveRepositories v now ls)) = None) \<and>
   (items ls (getKey IMAGE_INFO (repository @ '':'' @ tag)) = Some (Doc w timestamp) \<and>
      now' - timestamp > CACHE_TTL \<longrightarrow>
      fst (imageCache_getImageInfo repository tag now' ls) = None \<and>
      items (snd (imageCache_getImageInfo repository tag now' ls))
        (getKey IMAGE_INFO (repository @ '':'' @ tag)) = None) \<and>
   (items ls (getKey TAGS repository) = Some (Doc w timestamp) \<and>
      now' - timestamp > CACHE_TTL \<longrightarrow>
      fst (imageCache_getTags repository now' ls) = None \<and>
      items (snd (imageCache_getTags repository now' ls)) (getKey TAGS repository) = None) \<and>
   (items ls (getKey REPOSITORIES ''list'') = Some (Doc w timestamp) \<and>
      now' - timestamp > CACHE_TTL \<longrightarrow>
      fst (imageCache_getRepositories now' ls) = None \<and>
      items (snd (imageCache_getRepositories now' ls)) (getKey REPOSITORIES ''list'') = None) \<and>
   (items ls (getKey IMAGE_INFO (repository @ '':'' @ tag)) = Some (Doc w timestamp) \<and>
      \<not> now' - timestamp > CACHE_TTL \<longrightarrow>
      imageCache_getImageInfo repository tag now' ls = (Some w, ls)) \<and>
   (items ls (getKey TAGS repository) = Some (Doc w timestamp) \<and>
      \<not> now' - timestamp > CACHE_TTL \<longrightarrow>
      imageCache_getTags repository now' ls = (Some w, ls)) \<and>
   (items ls (getKey REPOSITORIES ''list'') = Some (Doc w timestamp) \<and>
      \<not> now' - timestamp > CACHE_TTL \<longrightarrow>
      imageCache_getRepositories now' ls = (Some w, ls))"
  by (simp add: CACHE_TTL_def [symmetric] tags_roundtrip imageInfo_roundtrip repositories_roundtrip
        tags_stale imageInfo_stale repositories_stale removeItem_items)
    (simp add: CACHE_TTL_def)

text \<open>Saved at time 1000: still returned 24 hours later, and a miss (with the entry
  deleted) one millisecond after that.\<close>

theorem cache_roundtrip_ttl_witness:
  "fst (imageCache_getTags ''app'' 86401000 saved_tags) = Some [''latest'', ''v1''] \<and>
   fst (imageCache_getImageInfo ''app'' ''latest'' 86401000
          (imageCache_saveImageInfo ''app'' ''latest'' [''x''] 1000 empty_storage)) = Some [''x''] \<and>
   fst (imageCache_getRepositories 86401000
          (imageCache_saveRepositories [''app''] 1000 empty_storage)) = Some [''app''] \<and>
   fst (imageCache_getTags ''app'' 86401001 saved_tags) = None \<and>
   items (snd (imageCache_getTags ''app'' 86401001 saved_tags)) (getKey TAGS ''app'') = None \<and>
   fst (imageCache_getImageInfo ''app'' ''latest'' 86401001
          (imageCache_saveImageInfo ''app'' ''latest'' [''x''] 1000 empty_storage)) = None \<and>
   fst (imageCache_getRepositories 86401001
          (imageCache_saveRepositories [''app''] 1000 empty_storage)) = None"
proof -
  have q: "\<not> quotaExceeded (empty_storage :: string list localStorage)"
    by (simp add: empty_storage_def)
  have t1: "(86401000::int) - 1000 \<le> CACHE_TTL" and t2: "(86401001::int) - 1000 > CACHE_TTL"
    by (simp_all add: CACHE_TTL_def)
  note fresh = cache_roundtrip_ttl [of empty_storage 86401000 1000 "''app''" "''latest''" _ "[]" 0]
  note stale = cache_roundtrip_ttl [of saved_tags 86401001 1000 "''app''" "''latest''" _
                 "[''latest'', ''v1'']" 1000]
  note stale2 = cache_roundtrip_ttl [of empty_storage 86401001 1000 "''app''" "''latest''" _ "[]" 0]
  have a: "fst (imageCache_getTags ''app'' 86401000 saved_tags) = Some [''latest'', ''v1'']"
    using fresh [of "[''latest'', ''v1'']"] q t1 unfolding saved_tags_def by blast
  have b: "fst (imageCache_getImageInfo ''app'' ''latest'' 86401000
          (imageCache_saveImageInfo ''app'' ''latest'' [''x''] 1000 empty_storage)) = Some [''x'']"
    using fresh [of "[''x'']"] q t1 by blast
  have c: "fst (imageCache_getRepositories 86401000
          (imageCache_saveRepositories [''app''] 1000 empty_storage)) = Some [''app'']"
    using fresh [of "[''app'']"] q t1 by blast
  have d: "fst (imageCache_getTags ''app'' 86401001 saved_tags) = None \<and>
      items (snd (imageCache_getTags ''app'' 86401001 saved_tags)) (getKey TAGS ''app'') = None"
    using stale [of "[]"] saved_tags_item t2 by blast
  have e: "fst (imageCache_getImageInfo ''app'' ''latest'' 86401001
          (imageCache_saveImageInfo ''app'' ''latest'' [''x''] 1000 empty_storage)) = None"
    using stale2 [of "[''x'']"] q t2 by blast
  have f: "fst (imageCache_getRepositories 86401001
          (imageCache_saveRepositories [''app''] 1000 empty_storage)) = None"
    using stale2 [of "[''app'']"] q t2 by blast
  from a b c d e f show ?thesis by (intro conjI) simp_all
qed

section \<open>Properties of the session lifecycle\<close>

lemma clearCredentials_fields:
  "api_credentials (clearCredentials a) = None"
  "memoryCredentials (credStore (clearCredentials a)) = None"
  "sessionItem (credStore (clearCredentials a)) = None"
  "state (clearCredentials a) = state a"
  "\<not> isAuthenticated (clearCredentials a)"
  by (simp_all add: clearCredentials_def credentialStore_clear_def isAuthenticated_def
        getCredentials_def)

lemma connect_failed_fields:
  "fst (connect_failed msg a) = ConnectFailed msg"
  "api_credentials (snd (connect_failed msg a)) = None"
  "memoryCredentials (credStore (snd (connect_failed msg a))) = None"
  "sessionItem (credStore (snd (connect_failed msg a))) = None"
  "\<not> isAuthenticated (snd (connect_failed msg a))"
  "isConnected (state (snd (connect_failed msg a))) = isConnected (state a)"
  by (simp_all add: connect_failed_def Let_def clearCredentials_def credentialStore_clear_def
        isAuthenticated_def getCredentials_def)

lemma saveCredentials_fields:
  "fst (saveCredentials url user pass a) = fst (credentialStore_save url user pass (credStore a))"
  "api_credentials (snd (saveCredentials url user pass a))
     = Some \<lparr>registryUrl = url, username = user, password = pass\<rparr>"
  "state (snd (saveCredentials url user pass a)) = state a"
  "registry (snd (saveCredentials url user pass a)) = registry a"
  by (simp_all add: saveCredentials_def Let_def split: prod.splits)

lemma connect_save_throws:
  assumes "fst (credentialStore_save url user pass (credStore a)) = Inl err"
  shows "connect url user pass now a =
           Some (connect_failed (message err)
                   (snd (saveCredentials url user pass
                           (a\<lparr>state := (state a)\<lparr>isLoading := True, st_error := None\<rparr>\<rparr>))))"
proof -
  let ?a1 = "a\<lparr>state := (state a)\<lparr>isLoading := True, st_error := None\<rparr>\<rparr>"
  have "fst (saveCredentials url user pass ?a1) = Inl err"
    using assms by (simp add: saveCredentials_fields)
  then show ?thesis
    by (cases "saveCredentials url user pass ?a1") (simp add: connect_def Let_def)
qed

lemma connect_ping_fails:
  assumes "fst (credentialStore_save url user pass (credStore a)) = Inr meth"
    and "request (Some \<lparr>registryUrl = url, username = user, password = pass\<rparr>)
           (pingOutcome (registry a)) = Inl err"
  shows "\<exists>a3. connect url user pass now a = Some (connect_failed (message err) a3) \<and>
              isConnected (state a3) = isConnected (state a)"
proof -
  let ?a1 = "a\<lparr>state := (state a)\<lparr>isLoading := True, st_error := None\<rparr>\<rparr>"
  obtain r a2 where s: "saveCredentials url user pass ?a1 = (r, a2)"
    by (cases "saveCredentials url user pass ?a1")
  have r: "r = Inr meth"
    using assms(1) saveCredentials_fields(1) [of url user pass ?a1] s by simp
  have a2: "api_credentials a2 = Some \<lparr>registryUrl = url, username = user, password = pass\<rparr>"
    "state a2 = state ?a1" "registry a2 = registry a"
    using saveCredentials_fields(2,3,4) [of url user pass ?a1] s by simp_all
  let ?a3 = "a2\<lparr>state := (state a2)\<lparr>storageInfo :=
                                      Some (credentialStore_getStorageInfo (credStore a2))\<rparr>\<rparr>"
  have "testConnection ?a3 = Some (message err)"
    using assms(2) a2 by (simp add: testConnection_def getCredentials_def)
  then have "connect url user pass now a = Some (connect_failed (message err) ?a3)"
    using s r by (simp add: connect_def Let_def)
  moreover have "isConnected (state ?a3) = isConnected (state a)"
    using a2 by simp
  ultimately show ?thesis by blast
qed

lemma reconnect_ping_fails:
  assumes "credentialStore_load (credStore a) = (Some c, cs)"
    and "registryUrl c \<noteq> None"
    and "request (Some c) (pingOutcome (registry a)) = Inl err"
  shows "reconnect now a =
           Some (False,
                 a\<lparr>api_credentials := Some c, credStore := cs,
                   state := (state a)\<lparr>isLoading := False, st_error := None,
                              storageInfo := Some (credentialStore_getStorageInfo cs),
                              isInitializing := False\<rparr>\<rparr>)"
  using assms
  by (simp add: reconnect_def Let_def initCredentials_def isAuthenticated_def getCredentials_def
        testConnection_def)

lemma load_keeps_session:
  "credentialStore_load cs = (r, cs') \<Longrightarrow> sessionItem cs' = sessionItem cs"
  by (auto simp: credentialStore_load_def Let_def split: option.splits if_splits prod.splits)

lemma load_sets_memory:
  "credentialStore_load cs = (Some c, cs') \<Longrightarrow> memoryCredentials cs' = Some c"
  by (auto simp: credentialStore_load_def Let_def split: option.splits if_splits prod.splits)

lemma example_load:
  "credentialStore_load (credStore example_app) =
     (Some \<lparr>registryUrl = Some ''https://registry.example.org'', username = Some ''alice'',
            password = Some ''secret''\<rparr>,
      example_store\<lparr>memoryCredentials :=
        Some \<lparr>registryUrl = Some ''https://registry.example.org'', username = Some ''alice'',
              password = Some ''secret''\<rparr>\<rparr>)"
  by (simp add: example_app_def example_store_def credentialStore_load_def Let_def
        truthy_str_def or_str_def)

lemma example_ping:
  "request (Some \<lparr>registryUrl = Some ''https://registry.example.org'', username = Some ''alice'',
                  password = Some ''secret''\<rparr>)
     (pingOutcome (registry example_app)) = Inl (Error ''Failed to fetch'')"
  by (simp add: request_def configured_def truthy_str_def example_app_def offline_network_def)

lemma example_save:
  "fst (credentialStore_save (Some ''https://registry.example.org'') (Some ''alice'')
          (Some ''secret'') (credStore example_app)) = Inr ''session-storage''"
  by (simp add: credentialStore_save_def save_session_def Let_def example_app_def
        example_store_def)

text \<open>
  Claim C8, as the code has it. When \<open>connect\<close> fails (saving the credentials throws, or
  they are saved and the connection test fails), it returns the failure with the error's
  message, and afterwards the credentials are cleared everywhere: the client's field, the
  store's memory and the \<open>sessionStorage\<close> entry are empty and \<open>isAuthenticated\<close> is false.
  When \<open>reconnect\<close> has loaded stored credentials and the connection test fails, it
  returns \<open>false\<close> and clears nothing: the loaded credentials stay in the client and in
  the store's memory, the \<open>sessionStorage\<close> entry is kept and \<open>isAuthenticated\<close> is true.
  Neither failure changes \<open>isConnected\<close>, so a system that was not connected does not
  report itself connected.
\<close>

theorem failed_verification_credentials:
  "(fst (credentialStore_save url user pass (credStore a)) = Inl err \<or>
    (\<exists>meth. fst (credentialStore_save url user pass (credStore a)) = Inr meth) \<and>
      request (Some \<lparr>registryUrl = url, username = user, password = pass\<rparr>)
        (pingOutcome (registry a)) = Inl err
    \<longrightarrow> (\<exists>a'. connect url user pass now a = Some (ConnectFailed (message err), a') \<and>
               api_credentials a' = None \<and> memoryCredentials (credStore a') = None \<and>
               sessionItem (credStore a') = None \<and> \<not> isAuthenticated a' \<and>
               isConnected (state a') = isConnected (state a))) \<and>
   (credentialStore_load (credStore a) = (Some c, cs) \<and> registryUrl c \<noteq> None \<and>
    request (Some c) (pingOutcome (registry a)) = Inl err
    \<longrightarrow> (\<exists>a'. reconnect now a = Some (False, a') \<and>
               api_credentials a' = Some c \<and> memoryCredentials (credStore a') = Some c \<and>
               sessionItem (credStore a') = sessionItem (credStore a) \<and> isAuthenticated a' \<and>
               isConnected (state a') = isConnected (state a)))"
proof (intro conjI impI)
  assume "fst (credentialStore_save url user pass (credStore a)) = Inl err \<or>
    (\<exists>meth. fst (credentialStore_save url user pass (credStore a)) = Inr meth) \<and>
      request (Some \<lparr>registryUrl = url, username = user, password = pass\<rparr>)
        (pingOutcome (registry a)) = Inl err"
  then show "\<exists>a'. connect url user pass now a = Some (ConnectFailed (message err), a') \<and>
               api_credentials a' = None \<and> memoryCredentials (credStore a') = None \<and>
               sessionItem (credStore a') = None \<and> \<not> isAuthenticated a' \<and>
               isConnected (state a') = isConnected (state a)"
  proof (elim disjE conjE exE)
    assume "fst (credentialStore_save url user pass (credStore a)) = Inl err"
    from connect_save_throws [OF this, of now] show ?thesis
      using connect_failed_fields
        [of "message err" "snd (saveCredentials url user pass
                           (a\<lparr>state := (state a)\<lparr>isLoading := True, st_error := None\<rparr>\<rparr>))"]
      by (cases "connect_failed (message err) (snd (saveCredentials url user pass
                           (a\<lparr>state := (state a)\<lparr>isLoading := True, st_error := None\<rparr>\<rparr>)))")
         (simp add: saveCredentials_fields)
  next
    fix meth
    assume "fst (credentialStore_save url user pass (credStore a)) = Inr meth"
      and "request (Some \<lparr>registryUrl = url, username = user, password = pass\<rparr>)
             (pingOutcome (registry a)) = Inl err"
    from connect_ping_fails [OF this, of now] obtain a3 where
      c: "connect url user pass now a = Some (connect_failed (message err) a3)"
      and i: "isConnected (state a3) = isConnected (state a)"
      by blast
    show ?thesis
      using c i connect_failed_fields [of "message err" a3]
      by (cases "connect_failed (message err) a3") simp
  qed
next
  assume h: "credentialStore_load (credStore a) = (Some c, cs) \<and> registryUrl c \<noteq> None \<and>
    request (Some c) (pingOutcome (registry a)) = Inl err"
  then have "reconnect now a =
           Some (False,
                 a\<lparr>api_credentials := Some c, credStore := cs,
                   state := (state a)\<lparr>isLoading := False, st_error := None,
                              storageInfo := Some (credentialStore_getStorageInfo cs),
                              isInitializing := False\<rparr>\<rparr>)"
    by (intro reconnect_ping_fails) simp_all
  moreover have "sessionItem cs = sessionItem (credStore a)" "memoryCredentials cs = Some c"
    using h load_keeps_session load_sets_memory by blast+
  ultimately show "\<exists>a'. reconnect now a = Some (False, a') \<and>
               api_credentials a' = Some c \<and> memoryCredentials (credStore a') = Some c \<and>
               sessionItem (credStore a') = sessionItem (credStore a) \<and> isAuthenticated a' \<and>
               isConnected (state a') = isConnected (state a)"
    using h by (simp add: isAuthenticated_def getCredentials_def)
qed

theorem failed_verification_credentials_witness:
  "(\<exists>a'. connect (Some ''https://registry.example.org'') (Some ''alice'') (Some ''secret'') 0
            example_app = Some (ConnectFailed ''Failed to fetch'', a') \<and>
         api_credentials a' = None \<and> memoryCredentials (credStore a') = None \<and>
         sessionItem (credStore a') = None \<and> \<not> isAuthenticated a' \<and>
         isConnected (state a') = False) \<and>
   (\<exists>a'. reconnect 0 example_app = Some (False, a') \<and>
         api_credentials a' = Some \<lparr>registryUrl = Some ''https://registry.example.org'',
                                     username = Some ''alice'', password = Some ''secret''\<rparr> \<and>
         sessionItem (credStore a') = sessionItem example_store \<and> isAuthenticated a' \<and>
         isConnected (state a') = False)"
proof -
  note inst = failed_verification_credentials
    [where a = example_app and url = "Some ''https://registry.example.org''"
       and user = "Some ''alice''" and pass = "Some ''secret''"
       and err = "Error ''Failed to fetch''" and now = 0
       and c = "\<lparr>registryUrl = Some ''https://registry.example.org'', username = Some ''alice'',
                  password = Some ''secret''\<rparr>"
       and cs = "example_store\<lparr>memoryCredentials :=
                   Some \<lparr>registryUrl = Some ''https://registry.example.org'',
                         username = Some ''alice'', password = Some ''secret''\<rparr>\<rparr>"]
  have nc: "isConnected (state example_app) = False" "credStore example_app = example_store"
    by (simp_all add: example_app_def initial_state_def)
  have "\<exists>a'. connect (Some ''https://registry.example.org'') (Some ''alice'') (Some ''secret'') 0
            example_app = Some (ConnectFailed (message (Error ''Failed to fetch'')), a') \<and>
         api_credentials a' = None \<and> memoryCredentials (credStore a') = None \<and>
         sessionItem (credStore a') = None \<and> \<not> isAuthenticated a' \<and>
         isConnected (state a') = isConnected (state example_app)"
    using inst [THEN conjunct1] example_save example_ping by blast
  moreover have "\<exists>a'. reconnect 0 example_app = Some (False, a') \<and>
         api_credentials a' = Some \<lparr>registryUrl = Some ''https://registry.example.org'',
                                     username = Some ''alice'', password = Some ''secret''\<rparr> \<and>
         memoryCredentials (credStore a')
           = Some \<lparr>registryUrl = Some ''https://registry.example.org'',
                   username = Some ''alice'', password = Some ''secret''\<rparr> \<and>
         sessionItem (credStore a') = sessionItem (credStore example_app) \<and> isAuthenticated a' \<and>
         isConnected (state a') = isConnected (state example_app)"
    using inst [THEN conjunct2] example_load example_ping by simp
  ultimately show ?thesis
    unfolding nc by auto
qed

text \<open>The claim as written fails for \<open>reconnect\<close>: after a failed verification the
  credentials loaded from the session are still there.\<close>

theorem reconnect_keeps_credentials_counterexample:
  "reconnect 0 example_app \<noteq> None \<and>
   fst (the (reconnect 0 example_app)) = False \<and>
   isAuthenticated (snd (the (reconnect 0 example_app))) \<and>
   api_credentials (snd (the (reconnect 0 example_app))) \<noteq> None \<and>
   memoryCredentials (credStore (snd (the (reconnect 0 example_app)))) \<noteq> None \<and>
   sessionItem (credStore (snd (the (reconnect 0 example_app)))) \<noteq> None"
  using reconnect_ping_fails [OF example_load _ example_ping, of 0]
  by (simp add: isAuthenticated_def getCredentials_def example_store_def)

section \<open>Properties of the read-through operations\<close>

lemma removeItem_no_new: "items (removeItem k ls) k' = Some d \<Longrightarrow> items ls k' = Some d"
  by (simp add: removeItem_def split: if_splits)

lemma getTags_cache_no_new:
  "items (snd (imageCache_getTags repository now ls)) k = Some d \<Longrightarrow> items ls k = Some d"
  by (auto simp: imageCache_getTags_def imageCache_clearTags_def getItem_def
        split: option.splits stored.splits if_splits dest: removeItem_no_new)

lemma getImageInfo_cache_no_new:
  "items (snd (imageCache_getImageInfo repository tag now ls)) k = Some d \<Longrightarrow> items ls k = Some d"
  by (auto simp: imageCache_getImageInfo_def imageCache_clearImageInfo_def getItem_def
        split: option.splits stored.splits if_splits dest: removeItem_no_new)

lemma getRepositories_cache_no_new:
  "items (snd (imageCache_getRepositories now ls)) k = Some d \<Longrightarrow> items ls k = Some d"
  by (auto simp: imageCache_getRepositories_def imageCache_clearRepositories_def getItem_def
        split: option.splits stored.splits if_splits dest: removeItem_no_new)

lemma getTags_calls:
  "calls (snd (getTags creds repository nw)) = calls nw @ [TagsReq repository]"
  by (simp add: getTags_def enqueueRequest_await_def)

lemma getImageInfo_fails:
  assumes "fst (getManifest creds repository tag nw) = Inl err"
  shows "getImageInfo creds repository tag nw =
           (Inl err, nw\<lparr>calls := calls nw @ [ManifestReq repository tag]\<rparr>)"
  using assms
  by (simp add: getImageInfo_def getManifest_def enqueueRequest_await_def)

lemma loadTags_failure:
  assumes "property a (st_tags (state a)) repository = None"
    and "fst (imageCache_getTags repository now (storage a)) = None"
    and "fst (getTags (getCredentials a) repository (registry a)) = Inl err"
  shows "loadTags repository now a =
           (Inr (CNames []),
            a\<lparr>storage := snd (imageCache_getTags repository now (storage a)),
              registry := snd (getTags (getCredentials a) repository (registry a)),
              state := (state a)\<lparr>st_tags := (st_tags (state a))(repository \<mapsto> CNames [])\<rparr>\<rparr>)"
  using assms
  by (cases "imageCache_getTags repository now (storage a)";
      cases "getTags (getCredentials a) repository (registry a)")
     (simp add: loadTags_def)

lemma loadImageInfo_failure:
  assumes "property a (imageInfos (state a)) (repository @ '':'' @ tag) = None"
    and "fst (imageCache_getImageInfo repository tag now (storage a)) = None"
    and "fst (getManifest (getCredentials a) repository tag (registry a)) = Inl err"
  shows "loadImageInfo repository tag now a =
           (Inr None,
            a\<lparr>storage := snd (imageCache_getImageInfo repository tag now (storage a)),
              registry := (registry a)\<lparr>calls := calls (registry a) @ [ManifestReq repository tag]\<rparr>\<rparr>)"
  using assms getImageInfo_fails [OF assms(3)]
  by (cases "imageCache_getImageInfo repository tag now (storage a)")
     (simp add: loadImageInfo_def Let_def)

lemma getCredentials_state: "getCredentials (a\<lparr>state := s\<rparr>) = getCredentials a"
  by (simp add: getCredentials_def split: option.splits)

lemma loadRepositories_failure:
  assumes "fst (imageCache_getRepositories now (storage a)) = None"
    and "getAllRepositories (getCredentials a) (registry a) = Some (Inl err, nw)"
  shows "loadRepositories now a =
           Some (Inr (),
                 a\<lparr>storage := snd (imageCache_getRepositories now (storage a)),
                   registry := nw,
                   state := (state a)\<lparr>isLoading := False, st_error := Some (message err)\<rparr>\<rparr>)"
  using assms
  by (cases "imageCache_getRepositories now (storage a)")
     (simp add: loadRepositories_def Let_def getCredentials_state)

lemma signed_in_fields:
  "getCredentials signed_in_app = Some example_credentials"
  "registry signed_in_app = offline_network"
  "storage signed_in_app = empty_storage"
  "state signed_in_app = initial_state"
  by (simp_all add: signed_in_app_def example_app_def getCredentials_def)

lemma example_configured: "configured (Some example_credentials)"
  by (simp add: configured_def example_credentials_def truthy_str_def)

lemma offline_getTags:
  "fst (getTags (getCredentials signed_in_app) ''app'' (registry signed_in_app))
     = Inl (Error ''Failed to fetch'')"
  using example_configured
  by (simp add: signed_in_fields getTags_def enqueueRequest_await_def request_def
        offline_network_def)

lemma offline_getManifest:
  "fst (getManifest (getCredentials signed_in_app) ''app'' ''latest'' (registry signed_in_app))
     = Inl (Error ''Failed to fetch'')"
  using example_configured
  by (simp add: signed_in_fields getManifest_def enqueueRequest_await_def request_def
        offline_network_def)

lemma offline_getAllRepositories:
  "getAllRepositories (getCredentials signed_in_app) (registry signed_in_app) =
     Some (Inl (Error ''Failed to fetch''),
           offline_network\<lparr>catalogPages := [], calls := [CatalogReq 100 []]\<rparr>)"
  using example_configured
  unfolding getAllRepositories_def signed_in_fields
  by (subst getAllRepositories_loop.simps)
     (simp add: fetchPage_def getCatalog_def enqueueRequest_await_def offline_network_def
        pageSize_def)

lemma empty_cache_misses:
  "fst (imageCache_getTags ''app'' 0 (storage signed_in_app)) = None"
  "fst (imageCache_getImageInfo ''app'' ''latest'' 0 (storage signed_in_app)) = None"
  "fst (imageCache_getRepositories 0 (storage signed_in_app)) = None"
  by (simp_all add: signed_in_fields empty_storage_def imageCache_getTags_def
        imageCache_getImageInfo_def imageCache_getRepositories_def getItem_def)

lemma empty_state_misses:
  "property signed_in_app (st_tags (state signed_in_app)) ''app'' = None"
  "property signed_in_app (imageInfos (state signed_in_app)) (''app'' @ '':'' @ ''latest'') = None"
  by (simp_all add: property_def signed_in_fields initial_state_def signed_in_app_def
        example_app_def example_builtins_def object_prototype_def)

lemma loadTags_memory_hit:
  "property a (st_tags (state a)) repository = Some v \<Longrightarrow> loadTags repository now a = (Inr v, a)"
  by (simp add: loadTags_def)

lemma loadImageInfo_memory_hit:
  "property a (imageInfos (state a)) (repository @ '':'' @ tag) = Some v
     \<Longrightarrow> loadImageInfo repository tag now a = (Inr (Some v), a)"
  by (simp add: loadImageInfo_def Let_def)

text \<open>On a fresh state the lookup of the repository name \<open>constructor\<close> is answered by
  the \<open>Object\<close> function every object inherits, so \<open>loadTags\<close> returns it at once, without
  reading the cache or asking the registry.\<close>

lemma loadTags_constructor:
  "loadTags ''constructor'' 0 signed_in_app = (Inr (CForeign ''constructor''), signed_in_app)"
  by (rule loadTags_memory_hit)
     (simp add: property_def signed_in_fields initial_state_def signed_in_app_def
        example_app_def example_builtins_def object_prototype_def)

text \<open>
  Claim C9, as the code has it. When the lookup in the reactive state finds a value
  (one stored there, or one that every object answers, as for the name \<open>constructor\<close>),
  \<open>loadTags\<close> and \<open>loadImageInfo\<close> return it and do nothing else. When neither that
  lookup nor the cache has a value and the registry client fails with an error, the
  operation catches the error and its promise is fulfilled, not rejected:
  \<^item> \<open>loadTags\<close> returns the empty list and records the empty list as the tags of the
    repository in the reactive state;
  \<^item> \<open>loadImageInfo\<close> returns null and leaves the reactive state as it was;
  \<^item> \<open>loadRepositories\<close> stores the error's message in \<open>state.error\<close> and leaves the
    repository list as it was.
  In all three nothing is written to the cache (every entry in storage afterwards was there
  before) and the request is not repeated (one throttled request for tags and for image
  info; the registry is left as the single run of \<open>getAllRepositories\<close> left it).
\<close>

theorem network_failure_is_caught:
  "(property a (st_tags (state a)) repository = Some v
    \<longrightarrow> loadTags repository now a = (Inr v, a)) \<and>
   (property a (imageInfos (state a)) (repository @ '':'' @ tag) = Some v
    \<longrightarrow> loadImageInfo repository tag now a = (Inr (Some v), a)) \<and>
   (property a (st_tags (state a)) repository = None \<and>
    fst (imageCache_getTags repository now (storage a)) = None \<and>
    fst (getTags (getCredentials a) repository (registry a)) = Inl err
    \<longrightarrow> (\<exists>a'. loadTags repository now a = (Inr (CNames []), a') \<and>
               st_tags (state a') repository = Some (CNames []) \<and>
               (\<forall>k d. items (storage a') k = Some d \<longrightarrow> items (storage a) k = Some d) \<and>
               calls (registry a') = calls (registry a) @ [TagsReq repository])) \<and>
   (property a (imageInfos (state a)) (repository @ '':'' @ tag) = None \<and>
    fst (imageCache_getImageInfo repository tag now (storage a)) = None \<and>
    fst (getManifest (getCredentials a) repository tag (registry a)) = Inl err
    \<longrightarrow> (\<exists>a'. loadImageInfo repository tag now a = (Inr None, a') \<and>
               state a' = state a \<and>
               (\<forall>k d. items (storage a') k = Some d \<longrightarrow> items (storage a) k = Some d) \<and>
               calls (registry a') = calls (registry a) @ [ManifestReq repository tag])) \<and>
   (fst (imageCache_getRepositories now (storage a)) = None \<and>
    getAllRepositories (getCredentials a) (registry a) = Some (Inl err, nw)
    \<longrightarrow> (\<exists>a'. loadRepositories now a = Some (Inr (), a') \<and>
               st_error (state a') = Some (message err) \<and>
               st_repositories (state a') = st_repositories (state a) \<and>
               (\<forall>k d. items (storage a') k = Some d \<longrightarrow> items (storage a) k = Some d) \<and>
               registry a' = nw))"
proof (intro conjI impI)
  assume "property a (st_tags (state a)) repository = Some v"
  then show "loadTags repository now a = (Inr v, a)"
    by (rule loadTags_memory_hit)
next
  assume "property a (imageInfos (state a)) (repository @ '':'' @ tag) = Some v"
  then show "loadImageInfo repository tag now a = (Inr (Some v), a)"
    by (rule loadImageInfo_memory_hit)
next
  assume h: "property a (st_tags (state a)) repository = None \<and>
    fst (imageCache_getTags repository now (storage a)) = None \<and>
    fst (getTags (getCredentials a) repository (registry a)) = Inl err"
  then have "loadTags repository now a =
           (Inr (CNames []),
            a\<lparr>storage := snd (imageCache_getTags repository now (storage a)),
              registry := snd (getTags (getCredentials a) repository (registry a)),
              state := (state a)\<lparr>st_tags := (st_tags (state a))(repository \<mapsto> CNames [])\<rparr>\<rparr>)"
    by (intro loadTags_failure) simp_all
  then show "\<exists>a'. loadTags repository now a = (Inr (CNames []), a') \<and>
               st_tags (state a') repository = Some (CNames []) \<and>
               (\<forall>k d. items (storage a') k = Some d \<longrightarrow> items (storage a) k = Some d) \<and>
               calls (registry a') = calls (registry a) @ [TagsReq repository]"
    using getTags_cache_no_new [of repository now "storage a"]
    by (simp add: getTags_calls)
next
  assume h: "property a (imageInfos (state a)) (repository @ '':'' @ tag) = None \<and>
    fst (imageCache_getImageInfo repository tag now (storage a)) = None \<and>
    fst (getManifest (getCredentials a) repository tag (registry a)) = Inl err"
  then have "loadImageInfo repository tag now a =
           (Inr None,
            a\<lparr>storage := snd (imageCache_getImageInfo repository tag now (storage a)),
              registry := (registry a)\<lparr>calls := calls (registry a) @ [ManifestReq repository tag]\<rparr>\<rparr>)"
    by (intro loadImageInfo_failure) simp_all
  then show "\<exists>a'. loadImageInfo repository tag now a = (Inr None, a') \<and>
               state a' = state a \<and>
               (\<forall>k d. items (storage a') k = Some d \<longrightarrow> items (storage a) k = Some d) \<and>
               calls (registry a') = calls (registry a) @ [ManifestReq repository tag]"
    using getImageInfo_cache_no_new [of repository tag now "storage a"]
    by simp
next
  assume h: "fst (imageCache_getRepositories now (storage a)) = None \<and>
    getAllRepositories (getCredentials a) (registry a) = Some (Inl err, nw)"
  then have "loadRepositories now a =
           Some (Inr (),
                 a\<lparr>storage := snd (imageCache_getRepositories now (storage a)),
                   registry := nw,
                   state := (state a)\<lparr>isLoading := False, st_error := Some (message err)\<rparr>\<rparr>)"
    by (intro loadRepositories_failure) simp_all
  then show "\<exists>a'. loadRepositories now a = Some (Inr (), a') \<and>
               st_error (state a') = Some (message err) \<and>
               st_repositories (state a') = st_repositories (state a) \<and>
               (\<forall>k d. items (storage a') k = Some d \<longrightarrow> items (storage a) k = Some d) \<and>
               registry a' = nw"
    using getRepositories_cache_no_new [of now "storage a"]
    by simp
qed

theorem network_failure_is_caught_witness:
  "(\<exists>a'. loadTags ''app'' 0 signed_in_app = (Inr (CNames []), a') \<and>
         st_tags (state a') ''app'' = Some (CNames []) \<and>
         calls (registry a') = [TagsReq ''app'']) \<and>
   (\<exists>a'. loadImageInfo ''app'' ''latest'' 0 signed_in_app = (Inr None, a') \<and>
         state a' = initial_state \<and>
         calls (registry a') = [ManifestReq ''app'' ''latest'']) \<and>
   (\<exists>a'. loadRepositories 0 signed_in_app = Some (Inr (), a') \<and>
         st_error (state a') = Some ''Failed to fetch'' \<and>
         st_repositories (state a') = CNames [] \<and>
         calls (registry a') = [CatalogReq 100 []]) \<and>
   loadTags ''constructor'' 0 signed_in_app = (Inr (CForeign ''constructor''), signed_in_app) \<and>
   loadImageInfo ''app'' ''latest'' 0
     (signed_in_app\<lparr>state := initial_state\<lparr>imageInfos := [''app:latest'' \<mapsto> CNames []]\<rparr>\<rparr>)
     = (Inr (Some (CNames [])),
        signed_in_app\<lparr>state := initial_state\<lparr>imageInfos := [''app:latest'' \<mapsto> CNames []]\<rparr>\<rparr>)"
proof -
  note inst = network_failure_is_caught
    [where a = signed_in_app and repository = "''app''" and tag = "''latest''" and now = 0
       and err = "Error ''Failed to fetch''"
       and nw = "offline_network\<lparr>catalogPages := [], calls := [CatalogReq 100 []]\<rparr>",
     THEN conjunct2, THEN conjunct2]
  have c0: "calls (registry signed_in_app) = []"
    "st_repositories (state signed_in_app) = CNames []"
    by (simp_all add: signed_in_fields offline_network_def initial_state_def)
  have t: "\<exists>a'. loadTags ''app'' 0 signed_in_app = (Inr (CNames []), a') \<and>
         st_tags (state a') ''app'' = Some (CNames []) \<and>
         calls (registry a') = [TagsReq ''app'']"
    using inst [THEN conjunct1] empty_state_misses(1) empty_cache_misses(1) offline_getTags c0
    by auto
  have i: "\<exists>a'. loadImageInfo ''app'' ''latest'' 0 signed_in_app = (Inr None, a') \<and>
         state a' = initial_state \<and>
         calls (registry a') = [ManifestReq ''app'' ''latest'']"
    using inst [THEN conjunct2, THEN conjunct1] empty_state_misses(2) empty_cache_misses(2)
      offline_getManifest c0 signed_in_fields(4)
    by auto
  have r: "\<exists>a'. loadRepositories 0 signed_in_app = Some (Inr (), a') \<and>
         st_error (state a') = Some ''Failed to fetch'' \<and>
         st_repositories (state a') = CNames [] \<and>
         calls (registry a') = [CatalogReq 100 []]"
    using inst [THEN conjunct2, THEN conjunct2] empty_cache_misses(3)
      offline_getAllRepositories c0
    by auto
  have inherited: "property signed_in_app (st_tags (state signed_in_app)) ''constructor''
                     = Some (CForeign ''constructor'')"
    by (simp add: property_def signed_in_fields initial_state_def signed_in_app_def
          example_app_def example_builtins_def object_prototype_def)
  have h1: "loadTags ''constructor'' 0 signed_in_app
              = (Inr (CForeign ''constructor''), signed_in_app)"
    using network_failure_is_caught
      [where a = signed_in_app and repository = "''constructor''" and now = 0
         and v = "CForeign ''constructor''", THEN conjunct1, THEN mp, OF inherited] .
  let ?a = "signed_in_app\<lparr>state := initial_state\<lparr>imageInfos := [''app:latest'' \<mapsto> CNames []]\<rparr>\<rparr>"
  have own: "property ?a (imageInfos (state ?a)) (''app'' @ '':'' @ ''latest'') = Some (CNames [])"
    by (simp add: property_def)
  have h2: "loadImageInfo ''app'' ''latest'' 0 ?a = (Inr (Some (CNames [])), ?a)"
    using network_failure_is_caught
      [where a = ?a and repository = "''app''" and tag = "''latest''" and now = 0
         and v = "CNames []", THEN conjunct2, THEN conjunct1, THEN mp, OF own] .
  from t i r h1 h2 show ?thesis by (intro conjI)
qed

text \<open>The claim as written fails: with the registry unreachable the client fails with
  \<open>Failed to fetch\<close>, yet \<open>loadTags\<close> is fulfilled with the empty list and
  \<open>loadImageInfo\<close> with null; the error does not reach the caller.\<close>

theorem network_failure_not_surfaced_counterexample:
  "fst (getTags (getCredentials signed_in_app) ''app'' (registry signed_in_app))
     = Inl (Error ''Failed to fetch'') \<and>
   fst (loadTags ''app'' 0 signed_in_app) = Inr (CNames []) \<and>
   fst (getImageInfo (getCredentials signed_in_app) ''app'' ''latest'' (registry signed_in_app))
     = Inl (Error ''Failed to fetch'') \<and>
   fst (loadImageInfo ''app'' ''latest'' 0 signed_in_app) = Inr None"
  using loadTags_failure [OF empty_state_misses(1) empty_cache_misses(1) offline_getTags]
    loadImageInfo_failure [OF empty_state_misses(2) empty_cache_misses(2) offline_getManifest]
    getImageInfo_fails [OF offline_getManifest] offline_getTags
  by simp

end
